theory Spec2Isabelle
  imports Main "HOL-Library.Sublist" "HOL-Library.AList"
begin

section \<open>JavaScript values, errors and strings\<close>

text \<open>
  The view data handed to \<open>load\<close> and to a renderer is an arbitrary JavaScript value.
  The program only ever tests such a value for truthiness and passes it on, so the model
  keeps the primitive kinds apart (they differ in truthiness) and represents every object
  by its list of own properties. Numbers are the integers plus \<open>NaN\<close>.
  Strings are lists of 8-bit characters.
\<close>

datatype js_value =
    JUndefined
  | JNull
  | JBool bool
  | JNum int
  | JNaN
  | JStr string
  | JObj "(string \<times> js_value) list"

text \<open>JavaScript's \<open>ToBoolean\<close>: what \<open>x ? a : b\<close>, \<open>x && y\<close> and \<open>!x\<close> test.\<close>

fun truthy :: "js_value \<Rightarrow> bool" where
  "truthy JUndefined = False"
| "truthy JNull = False"
| "truthy (JBool b) = b"
| "truthy (JNum n) = (n \<noteq> 0)"
| "truthy JNaN = False"
| "truthy (JStr s) = (s \<noteq> [])"
| "truthy (JObj ps) = True"

text \<open>
  Reading a property of a truthy value: an object yields the property when it has it and
  \<open>undefined\<close> otherwise; a string, a number and a boolean have no property of the
  names this program reads.
\<close>

fun get_property :: "js_value \<Rightarrow> string \<Rightarrow> js_value" where
  "get_property (JObj ps) k = (case map_of ps k of None \<Rightarrow> JUndefined | Some v \<Rightarrow> v)"
| "get_property v k = JUndefined"

text \<open>
  Values that are thrown: the runtime's \<open>TypeError\<close> (a property read on
  \<open>undefined\<close> or \<open>null\<close>, a call of something that is not a function, a
  non-string argument of \<open>path.join\<close>), and \<open>new Error(message)\<close>.
\<close>

datatype js_error = TypeError | Error string

text \<open>
  \<open>String.prototype.substr(start)\<close> with one argument: a negative \<open>start\<close> counts
  from the end of the string and is clamped at 0.
\<close>

definition substr_from :: "string \<Rightarrow> int \<Rightarrow> string" where
  "substr_from s start =
     (if start < 0 then drop (nat (max (int (length s) + start) 0)) s
      else drop (nat start) s)"

text \<open>
  The characters of \<open>\s\<close> that an 8-bit character can be: tab, line feed, vertical tab,
  form feed, carriage return, space and the no-break space.
\<close>

definition is_js_space :: "char \<Rightarrow> bool" where
  "is_js_space c =
     (c = CHR 0x09 \<or> c = CHR 0x0A \<or> c = CHR 0x0B \<or> c = CHR 0x0C \<or> c = CHR 0x0D
      \<or> c = CHR '' '' \<or> c = CHR 0xA0)"

text \<open>
  \<open>fileName.replace(/(?:\s|%20)/g, ' ')\<close>: scanning from the left, every white-space
  character and every literal \<open>%20\<close> becomes one space.
\<close>

fun replace_spaces :: "string \<Rightarrow> string" where
  "replace_spaces (a # b # c # cs) =
     (if is_js_space a then CHR '' '' # replace_spaces (b # c # cs)
      else if a = CHR ''%'' \<and> b = CHR ''2'' \<and> c = CHR ''0'' then CHR '' '' # replace_spaces cs
      else a # replace_spaces (b # c # cs))"
| "replace_spaces (a # cs) = (if is_js_space a then CHR '' '' else a) # replace_spaces cs"
| "replace_spaces [] = []"

section \<open>The Node.js built-ins the module calls\<close>

text \<open>
  \<open>url.parse\<close>, \<open>url.format\<close>, \<open>path.join\<close>, \<open>process.platform\<close> and
  \<open>ejs.renderFile\<close> are not part of the repository. The module's functions take them
  as a parameter \<open>N\<close>, so a theorem stated for an arbitrary \<open>N\<close> holds whatever the
  built-ins compute.

  Of a parsed URL the module reads \<open>pathname\<close> and \<open>hostname\<close> (each \<open>null\<close> when
  the URL has no such part) and, when parsed with \<open>parseQueryString = true\<close>, the
  \<open>query\<close> object, whose values are strings, or arrays of strings for repeated keys.
\<close>

datatype qvalue = QStr string | QArr "string list"

record parsed_url =
  pathname :: "string option"
  hostname :: "string option"
  query :: "(string \<times> qvalue) list"

text \<open>The object literal that \<open>load\<close> hands to \<open>url.format\<close>.\<close>

record url_object =
  uo_pathname :: string
  uo_protocol :: string
  uo_query :: "(string \<times> js_value) list"
  uo_slashes :: bool

text \<open>
  What \<open>ejs.renderFile\<close> reports to its callback on failure. \<open>eline\<close> and
  \<open>ecolumn\<close> are the texts a template literal prints for \<open>error.line\<close> and
  \<open>error.column\<close>.
\<close>

record ejs_failure =
  ename :: string
  emessage :: string
  efile :: "string option"
  eline :: string
  ecolumn :: string

record node =
  platform_win32 :: bool
  url_parse :: "string \<Rightarrow> js_error + parsed_url"
  url_format :: "url_object \<Rightarrow> string"
  path_join :: "string list \<Rightarrow> string"
  ejs_renderFile :: "string \<Rightarrow> js_value \<Rightarrow> ejs_failure + string"

text \<open>\<open>path.join\<close> throws a \<open>TypeError\<close> when an argument is not a string.\<close>

definition path_join_args :: "node \<Rightarrow> string option list \<Rightarrow> js_error + string" where
  "path_join_args N args =
     (if None \<in> set args then Inl TypeError else Inr (path_join N (map the args)))"

section \<open>The module's data\<close>

text \<open>
  A renderer action either calls its callback with the rendered HTML, throws, or returns
  without ever calling the callback.
\<close>

datatype action_result = Callback string | Throw js_error | NoCallback

type_synonym action = "string \<Rightarrow> js_value \<Rightarrow> action_result"

text \<open>A function value: what calling it does, and its \<open>name\<close> property.\<close>

record js_function =
  fn_name :: string
  fn_call :: action

record descriptor =
  extension :: "string option"
  rendererAction :: js_function
  name :: string

text \<open>
  What \<open>_currentRenderer\<close> can hold. It is the empty object \<open>{}\<close> after
  construction, and \<open>use\<close> assigns it \<open>this.renderers[name]\<close>: a descriptor,
  \<open>undefined\<close>, \<open>null\<close>, or some other value that \<open>_renderers\<close> inherits. Of
  such a value only its \<open>name\<close> property matters (absent for a string and for
  \<open>Object.prototype\<close>, present for a function): it has neither an \<open>extension\<close> nor a
  \<open>rendererAction\<close>.
\<close>

datatype current =
    EmptyObject
  | Descriptor descriptor
  | UndefinedRenderer
  | NullRenderer
  | OtherValue "string option"

record view_entry =
  viewData :: js_value

text \<open>
  The instance. \<open>_renderers\<close> and \<open>_views\<close> are object literals used as dictionaries.
  An assignment \<open>obj[key] = value\<close> creates or overwrites the own property \<open>key\<close>,
  except for the key \<open>__proto__\<close>: that assignment creates no own property and makes
  the assigned object the prototype of \<open>obj\<close>. Each dictionary is therefore a map of
  own properties together with the object that has replaced its prototype, if any
  (\<open>renderers_proto\<close>, \<open>views_proto\<close>); \<open>None\<close> there means that the prototype is
  still \<open>Object.prototype\<close>. \<open>readyListeners\<close> counts the listeners that \<open>use\<close> has
  put on the application's \<open>ready\<close> event.
\<close>

record evr =
  renderers :: "string \<rightharpoonup> descriptor"
  renderers_proto :: "descriptor option"
  currentRenderer :: current
  views :: "string \<rightharpoonup> view_entry"
  views_proto :: "view_entry option"
  viewProtcolName :: string
  useAssets :: bool
  assetsPath :: string
  assetsProtocolName :: string
  viewPath :: string
  ingnoreExtensions :: "string list"
  readyListeners :: nat

section \<open>parseFilePath\<close>

definition parseFilePath :: "node \<Rightarrow> string \<Rightarrow> js_error + string" where
  "parseFilePath N urlString =
     (case url_parse N urlString of
        Inl e \<Rightarrow> Inl e
      | Inr parsedUrl \<Rightarrow>
          (case pathname parsedUrl of
             None \<Rightarrow> Inl TypeError
           | Some fileName \<Rightarrow>
               Inr (replace_spaces
                      (if platform_win32 N then substr_from fileName 1 else fileName))))"

section \<open>add, use and the constructor\<close>

text \<open>The second argument of \<open>add\<close>; an \<open>extension\<close> left out defaults to \<open>null\<close>.\<close>

record add_data =
  d_extension :: "string option"
  d_rendererAction :: js_function

text \<open>\<open>this._renderers[name] = data\<close>\<close>

definition set_renderer :: "string \<Rightarrow> descriptor \<Rightarrow> evr \<Rightarrow> evr" where
  "set_renderer n d st =
     (if n = ''__proto__'' then st\<lparr>renderers_proto := Some d\<rparr>
      else st\<lparr>renderers := (renderers st)(n \<mapsto> d)\<rparr>)"

definition add :: "string option \<Rightarrow> add_data \<Rightarrow> evr \<Rightarrow> js_error + evr" where
  "add nm d st =
     (case nm of
        None \<Rightarrow> Inl (Error ''Renderer name required'')
      | Some n \<Rightarrow>
          if n = [] then Inl (Error ''Renderer name required'')
          else Inr (set_renderer n
                      \<lparr>extension = d_extension d,
                       rendererAction = d_rendererAction d,
                       name = n\<rparr> st))"

text \<open>
  The members of \<open>Object.prototype\<close> that are functions, each named as its key except
  \<open>constructor\<close>, which is the function \<open>Object\<close>. The remaining member,
  \<open>__proto__\<close>, is an accessor that yields the prototype.
\<close>

definition object_prototype_functions :: "string list" where
  "object_prototype_functions =
     [''constructor'', ''__defineGetter__'', ''__defineSetter__'', ''hasOwnProperty'',
      ''__lookupGetter__'', ''__lookupSetter__'', ''isPrototypeOf'', ''propertyIsEnumerable'',
      ''toString'', ''valueOf'', ''toLocaleString'']"

definition object_prototype_member :: "string \<Rightarrow> current" where
  "object_prototype_member n =
     (if n = ''constructor'' then OtherValue (Some ''Object'')
      else if n \<in> set object_prototype_functions then OtherValue (Some n)
      else UndefinedRenderer)"

text \<open>
  \<open>this.renderers[name]\<close>: the own property when there is one; for \<open>__proto__\<close> the
  prototype; otherwise what the prototype chain has under that name. A descriptor that has
  replaced the prototype lends its three properties: its \<open>extension\<close> (a string or
  \<open>null\<close>), its \<open>rendererAction\<close> (a function) and its \<open>name\<close> (a string).
\<close>

definition renderer_lookup :: "evr \<Rightarrow> string \<Rightarrow> current" where
  "renderer_lookup st n =
     (if n = ''__proto__''
      then (case renderers_proto st of None \<Rightarrow> OtherValue None | Some p \<Rightarrow> Descriptor p)
      else
        (case renderers st n of
           Some d \<Rightarrow> Descriptor d
         | None \<Rightarrow>
             (case renderers_proto st of
                None \<Rightarrow> object_prototype_member n
              | Some p \<Rightarrow>
                  if n = ''extension''
                  then (case extension p of None \<Rightarrow> NullRenderer | Some s \<Rightarrow> OtherValue None)
                  else if n = ''rendererAction''
                  then OtherValue (Some (fn_name (rendererAction p)))
                  else if n = ''name'' then OtherValue None
                  else object_prototype_member n)))"

definition use :: "string \<Rightarrow> evr \<Rightarrow> js_error + evr" where
  "use n st =
     Inr (st\<lparr>currentRenderer := renderer_lookup st n,
             readyListeners := Suc (readyListeners st)\<rparr>)"

text \<open>
  The action of the built-in EJS renderer. On failure it throws \<open>new Error(error)\<close>,
  whose message is the error converted to a string: its name and its message, joined by a
  colon when neither is empty.
\<close>

definition ejs_action :: "node \<Rightarrow> action" where
  "ejs_action N filePath vd =
     (case ejs_renderFile N filePath vd of
        Inr html \<Rightarrow> Callback html
      | Inl err \<Rightarrow>
          (let msg = (case efile err of
                        None \<Rightarrow> emessage err
                      | Some f \<Rightarrow>
                          if f = [] then emessage err
                          else emessage err @ [CHR 0x0A, CHR 0x0A] @ ''ERROR @('' @ f @ '':''
                                 @ eline err @ '':'' @ ecolumn err @ '')'')
           in Throw (Error (if ename err = [] then msg
                            else if msg = [] then ename err
                            else ename err @ '': '' @ msg))))"

text \<open>
  \<open>_populateEJSRenderer\<close> adds the EJS renderer; the \<open>viewPath\<close> property of the
  object it passes is not read by \<open>add\<close>. \<open>_populateHAMLRenderer\<close> and
  \<open>_populatePugRenderer\<close> have empty bodies.
\<close>

definition populateEJSRenderer :: "node \<Rightarrow> evr \<Rightarrow> js_error + evr" where
  "populateEJSRenderer N st =
     add (Some ''ejs'')
       \<lparr>d_extension = Some ''.ejs'',
        d_rendererAction = \<lparr>fn_name = ''rendererAction'', fn_call = ejs_action N\<rparr>\<rparr> st"

definition populateDefaultRenderers :: "node \<Rightarrow> evr \<Rightarrow> js_error + evr" where
  "populateDefaultRenderers N st = populateEJSRenderer N st"

record options =
  o_viewPath :: "string option"
  o_viewProtcolName :: "string option"
  o_useAssets :: "bool option"
  o_assetsPath :: "string option"
  o_assetsProtocolName :: "string option"
  o_ignoreExtensions :: "string list option"

definition constructor :: "node \<Rightarrow> options \<Rightarrow> js_error + evr" where
  "constructor N opts =
     (case populateDefaultRenderers N
             \<lparr>renderers = Map.empty,
              renderers_proto = None,
              currentRenderer = EmptyObject,
              views = Map.empty,
              views_proto = None,
              viewProtcolName = (case o_viewProtcolName opts of None \<Rightarrow> ''view'' | Some x \<Rightarrow> x),
              useAssets = (case o_useAssets opts of None \<Rightarrow> False | Some x \<Rightarrow> x),
              assetsPath = (case o_assetsPath opts of None \<Rightarrow> ''assets'' | Some x \<Rightarrow> x),
              assetsProtocolName =
                (case o_assetsProtocolName opts of None \<Rightarrow> ''asset'' | Some x \<Rightarrow> x),
              viewPath = (case o_viewPath opts of None \<Rightarrow> ''views'' | Some x \<Rightarrow> x),
              ingnoreExtensions = [],
              readyListeners = 0\<rparr> of
        Inl e \<Rightarrow> Inl e
      | Inr st \<Rightarrow>
          Inr (st\<lparr>ingnoreExtensions :=
                    (case o_ignoreExtensions opts of None \<Rightarrow> [] | Some x \<Rightarrow> x)\<rparr>))"

section \<open>load\<close>

text \<open>
  \<open>load\<close> returns what \<open>browserWindow.loadURL\<close> returns; the model returns the new
  instance, the contents of the query object after the call (the caller's own object when
  one was passed), and the URL handed to \<open>loadURL\<close>. Assigning a property keeps the
  position of a key that is there and appends a new one.
\<close>

record load_result =
  l_state :: evr
  l_query :: "(string \<times> js_value) list"
  l_url :: string

text \<open>\<open>this._views[view] = {viewData: viewData}\<close>\<close>

definition set_view :: "string \<Rightarrow> view_entry \<Rightarrow> evr \<Rightarrow> evr" where
  "set_view k e st =
     (if k = ''__proto__'' then st\<lparr>views_proto := Some e\<rparr>
      else st\<lparr>views := (views st)(k \<mapsto> e)\<rparr>)"

definition load :: "node \<Rightarrow> string \<Rightarrow> js_value \<Rightarrow> (string \<times> js_value) list option \<Rightarrow> evr
                     \<Rightarrow> load_result" where
  "load N view vd q st =
     (let st' = set_view view \<lparr>viewData = vd\<rparr> st;
          query0 = (case q of None \<Rightarrow> [] | Some x \<Rightarrow> x);
          query1 = AList.update ''_view'' (JStr view) query0
      in \<lparr>l_state = st',
          l_query = query1,
          l_url = url_format N \<lparr>uo_pathname = view, uo_protocol = ''view:'',
                                uo_query = query1, uo_slashes = True\<rparr>\<rparr>)"

section \<open>renderTemplate\<close>

record response =
  mimeType :: string
  data :: string

datatype outcome = Resolved response | Rejected js_error | Pending

text \<open>A promise is settled once: a later \<open>resolve\<close> or \<open>reject\<close> has no effect.\<close>

definition settle :: "outcome \<Rightarrow> outcome option \<Rightarrow> outcome option" where
  "settle oc p = (case p of None \<Rightarrow> Some oc | Some x \<Rightarrow> Some x)"

text \<open>
  The result of one request: how the promise ends, and the arguments of every call of the
  renderer's action.
\<close>

record dispatch =
  outcome :: outcome
  invoked :: "(string \<times> js_value) list"

text \<open>
  \<open>this._views[parsedUrl.query._view]\<close>: the property key of an absent \<open>_view\<close> is
  the string \<open>undefined\<close>, that of an array its elements joined by commas.
\<close>

fun join_commas :: "string list \<Rightarrow> string" where
  "join_commas [] = []"
| "join_commas [x] = x"
| "join_commas (x # y # ys) = x @ '','' @ join_commas (y # ys)"

definition view_key :: "(string \<times> qvalue) list \<Rightarrow> string" where
  "view_key q =
     (case map_of q ''_view'' of
        None \<Rightarrow> ''undefined''
      | Some (QStr s) \<Rightarrow> s
      | Some (QArr xs) \<Rightarrow> join_commas xs)"

text \<open>
  What \<open>this._views[key]\<close> yields. With an own property \<open>key\<close> it is that entry, and
  for \<open>__proto__\<close> it is the prototype: the entry that has replaced it, or
  \<open>Object.prototype\<close>. Without an own property the prototype chain answers: an entry
  that has replaced the prototype has one property, \<open>viewData\<close>, so the key
  \<open>viewData\<close> yields the data of that entry; the names of the members of
  \<open>Object.prototype\<close> yield those; every other key yields \<open>undefined\<close>.
\<close>

datatype view_read = ReadEntry view_entry | ReadInherited js_value | ReadBuiltin | ReadUndefined

definition views_read :: "evr \<Rightarrow> string \<Rightarrow> view_read" where
  "views_read st k =
     (if k = ''__proto__''
      then (case views_proto st of None \<Rightarrow> ReadBuiltin | Some e \<Rightarrow> ReadEntry e)
      else
        (case views st k of
           Some e \<Rightarrow> ReadEntry e
         | None \<Rightarrow>
             (case (if k = ''viewData'' then views_proto st else None) of
                Some p \<Rightarrow> ReadInherited (viewData p)
              | None \<Rightarrow>
                  if k \<in> set object_prototype_functions then ReadBuiltin else ReadUndefined)))"

text \<open>
  \<open>(this._views[key] && this._views[key].viewData) ? this._views[key].viewData : undefined\<close>.
  An entry is an object and so is truthy, as are the members of \<open>Object.prototype\<close>,
  which have no \<open>viewData\<close>.
\<close>

definition lookup_viewData :: "evr \<Rightarrow> (string \<times> qvalue) list \<Rightarrow> js_value" where
  "lookup_viewData st q =
     (case views_read st (view_key q) of
        ReadEntry entry \<Rightarrow> if truthy (viewData entry) then viewData entry else JUndefined
      | ReadInherited v \<Rightarrow>
          if truthy v \<and> truthy (get_property v ''viewData'')
          then get_property v ''viewData'' else JUndefined
      | ReadBuiltin \<Rightarrow> JUndefined
      | ReadUndefined \<Rightarrow> JUndefined)"

text \<open>
  The entry that the last \<open>load\<close> under an id has left in \<open>_views\<close>, and the
  descriptor that the last \<open>add\<close> under a name has left in \<open>_renderers\<close>: the own
  property, or for \<open>__proto__\<close> the object that has replaced the prototype.
\<close>

definition stored_view :: "evr \<Rightarrow> string \<Rightarrow> view_entry option" where
  "stored_view st k = (if k = ''__proto__'' then views_proto st else views st k)"

definition stored_renderer :: "evr \<Rightarrow> string \<Rightarrow> descriptor option" where
  "stored_renderer st n = (if n = ''__proto__'' then renderers_proto st else renderers st n)"

text \<open>
  \<open>renderer.extension || `.${renderer.name}`\<close>; reading a property of \<open>undefined\<close> or
  \<open>null\<close> throws.
\<close>

definition renderer_extension :: "current \<Rightarrow> js_error + string" where
  "renderer_extension r =
     (case r of
        UndefinedRenderer \<Rightarrow> Inl TypeError
      | NullRenderer \<Rightarrow> Inl TypeError
      | EmptyObject \<Rightarrow> Inr ''.undefined''
      | OtherValue None \<Rightarrow> Inr ''.undefined''
      | OtherValue (Some f) \<Rightarrow> Inr (''.'' @ f)
      | Descriptor d \<Rightarrow>
          (case extension d of
             None \<Rightarrow> Inr (''.'' @ name d)
           | Some e \<Rightarrow> if e = [] then Inr (''.'' @ name d) else Inr e))"

text \<open>
  The candidate file path, \<open>path.join(this.viewPath, `${fileName}${extension}`)\<close>, with
  the exceptions of the statements before it in their order.
\<close>

definition candidate_path :: "node \<Rightarrow> evr \<Rightarrow> string \<Rightarrow> js_error + string" where
  "candidate_path N st u =
     (case url_parse N u of
        Inl e \<Rightarrow> Inl e
      | Inr parsedUrl \<Rightarrow>
          (case parseFilePath N u of
             Inl e \<Rightarrow> Inl e
           | Inr fileName \<Rightarrow>
               (case renderer_extension (currentRenderer st) of
                  Inl e \<Rightarrow> Inl e
                | Inr ext \<Rightarrow> Inr (path_join N [viewPath st, fileName @ ext]))))"

text \<open>
  One round of the \<open>some\<close> loop over the ignore list; its callback returns nothing, so the
  loop visits every entry. The state is the promise and \<open>foundIgnore\<close>.
\<close>

definition ignore_step :: "string \<Rightarrow> outcome option \<times> bool \<Rightarrow> string \<Rightarrow> outcome option \<times> bool" where
  "ignore_step filePath s ext =
     (if substr_from filePath (int (length filePath) - int (length ext)) = ext
      then (settle (Resolved \<lparr>mimeType = ''text/html'', data = []\<rparr>) (fst s), True)
      else s)"

text \<open>
  \<open>renderer.rendererAction(filePath, viewData, callback)\<close>: only a descriptor has a
  \<open>rendererAction\<close>; calling the missing one throws.
\<close>

definition call_action :: "current \<Rightarrow> string \<Rightarrow> js_value \<Rightarrow> dispatch" where
  "call_action r filePath vd =
     (case r of
        Descriptor d \<Rightarrow>
          \<lparr>outcome = (case fn_call (rendererAction d) filePath vd of
                        Callback html \<Rightarrow> Resolved \<lparr>mimeType = ''text/html'', data = html\<rparr>
                      | Throw e \<Rightarrow> Rejected e
                      | NoCallback \<Rightarrow> Pending),
           invoked = [(filePath, vd)]\<rparr>
      | _ \<Rightarrow> \<lparr>outcome = Rejected TypeError, invoked = []\<rparr>)"

definition renderTemplate :: "node \<Rightarrow> evr \<Rightarrow> string \<Rightarrow> dispatch" where
  "renderTemplate N st u =
     (case url_parse N u of
        Inl e \<Rightarrow> \<lparr>outcome = Rejected e, invoked = []\<rparr>
      | Inr parsedUrl \<Rightarrow>
          (case candidate_path N st u of
             Inl e \<Rightarrow> \<lparr>outcome = Rejected e, invoked = []\<rparr>
           | Inr filePath \<Rightarrow>
               (let vd = lookup_viewData st (query parsedUrl);
                    scan = (if length (ingnoreExtensions st) > 0
                            then foldl (ignore_step filePath) (None, False) (ingnoreExtensions st)
                            else (None, False))
                in if snd scan
                   then \<lparr>outcome = (case fst scan of None \<Rightarrow> Pending | Some oc \<Rightarrow> oc),
                         invoked = []\<rparr>
                   else call_action (currentRenderer st) filePath vd)))"

section \<open>The protocol handlers\<close>

text \<open>
  The handler that \<open>setupViewProtocol\<close> registers: a resolved request is passed to the
  host's callback, a rejected one is logged and the callback is never called.
\<close>

record view_reply =
  replied :: "response option"
  logged :: "js_error option"

definition setupViewProtocol_handler :: "node \<Rightarrow> evr \<Rightarrow> string \<Rightarrow> view_reply" where
  "setupViewProtocol_handler N st u =
     (case outcome (renderTemplate N st u) of
        Resolved r \<Rightarrow> \<lparr>replied = Some r, logged = None\<rparr>
      | Rejected e \<Rightarrow> \<lparr>replied = None, logged = Some e\<rparr>
      | Pending \<Rightarrow> \<lparr>replied = None, logged = None\<rparr>)"

text \<open>
  The handler that \<open>setupAssetsProtocol\<close> registers; its result is the \<open>path\<close> of the
  object passed to the host's callback.
\<close>

definition setupAssetsProtocol_handler :: "node \<Rightarrow> evr \<Rightarrow> string \<Rightarrow> js_error + string" where
  "setupAssetsProtocol_handler N st u =
     (case url_parse N u of
        Inl e \<Rightarrow> Inl e
      | Inr parsedUrl \<Rightarrow>
          (case parseFilePath N u of
             Inl e \<Rightarrow> Inl e
           | Inr fileName \<Rightarrow>
               path_join_args N [Some (assetsPath st), hostname parsedUrl, Some fileName]))"

section \<open>A model of the built-ins\<close>

text \<open>
  For statements that depend on what the built-ins compute, the following definitions
  describe Node's \<open>path.posix.join\<close>, the legacy \<open>url.format\<close> and the legacy
  \<open>url.parse\<close>. \<open>posix_join\<close> follows \<open>path.posix.join\<close> on every input. The
  two URL functions follow Node on the URLs that this module produces and consumes:
  a lower-case protocol outside Node's built-in list, followed by two slashes, no user
  name and no port, a host of lower-case letters, digits, dots and hyphens, and a path and
  a query string free of the characters that \<open>url.parse\<close> rewrites (white space,
  back-slash, quotes, braces, angle brackets, \<open>^\<close>, \<open>`\<close> and \<open>|\<close>), with at most
  a thousand query parameters, none of them holding a percent escape of a character beyond
  ASCII.
\<close>

subsection \<open>path.posix.join\<close>

text \<open>\<open>s.split(c)\<close> for a single character: the empty string gives one empty piece.\<close>

fun split_on :: "char \<Rightarrow> string \<Rightarrow> string list" where
  "split_on c [] = [[]]"
| "split_on c (x # xs) =
     (if x = c then [] # split_on c xs
      else (case split_on c xs of
              [] \<Rightarrow> [[x]]
            | s # ss \<Rightarrow> (x # s) # ss))"

fun join_with :: "string \<Rightarrow> string list \<Rightarrow> string" where
  "join_with sep [] = []"
| "join_with sep [x] = x"
| "join_with sep (x # y # ys) = x @ sep @ join_with sep (y # ys)"

text \<open>
  \<open>normalizeString\<close>, segment by segment, with the segments kept so far in reverse
  order: empty segments and \<open>.\<close> are dropped; \<open>..\<close> removes the last segment kept
  unless there is none or it is \<open>..\<close> itself, in which case it is kept when the path is
  relative and dropped when it is absolute.
\<close>

fun normalize_segments :: "bool \<Rightarrow> string list \<Rightarrow> string list \<Rightarrow> string list" where
  "normalize_segments allowAboveRoot res [] = rev res"
| "normalize_segments allowAboveRoot res (s # ss) =
     (if s = [] \<or> s = ''.'' then normalize_segments allowAboveRoot res ss
      else if s = ''..'' then
        (case res of
           [] \<Rightarrow> normalize_segments allowAboveRoot (if allowAboveRoot then [''..''] else []) ss
         | t # ts \<Rightarrow>
             if t = ''..''
             then normalize_segments allowAboveRoot (if allowAboveRoot then ''..'' # res else res) ss
             else normalize_segments allowAboveRoot ts ss)
      else normalize_segments allowAboveRoot (s # res) ss)"

definition posix_normalize :: "string \<Rightarrow> string" where
  "posix_normalize p =
     (if p = [] then ''.''
      else
        (let isAbsolute = (hd p = CHR ''/'');
             trailingSeparator = (last p = CHR ''/'');
             q = join_with ''/'' (normalize_segments (\<not> isAbsolute) [] (split_on CHR ''/'' p))
         in if q = [] then (if isAbsolute then ''/'' else if trailingSeparator then ''./'' else ''.'')
            else (if isAbsolute then ''/'' else []) @ q @ (if trailingSeparator then ''/'' else [])))"

definition posix_join :: "string list \<Rightarrow> string" where
  "posix_join args =
     (let parts = filter (\<lambda>a. a \<noteq> []) args
      in if parts = [] then ''.'' else posix_normalize (join_with ''/'' parts))"

subsection \<open>url.format\<close>

definition hex_byte :: "nat \<Rightarrow> string" where
  "hex_byte n = [''0123456789ABCDEF'' ! (n div 16), ''0123456789ABCDEF'' ! (n mod 16)]"

definition is_alnum :: "char \<Rightarrow> bool" where
  "is_alnum c =
     (let n = (of_char c :: nat)
      in (48 \<le> n \<and> n \<le> 57) \<or> (65 \<le> n \<and> n \<le> 90) \<or> (97 \<le> n \<and> n \<le> 122))"

text \<open>
  \<open>querystring.escape\<close>: letters, digits and \<open>- _ . ! ~ * ' ( )\<close> stay, every other
  character is percent-encoded in UTF-8.
\<close>

definition qs_escape_char :: "char \<Rightarrow> string" where
  "qs_escape_char c =
     (let n = (of_char c :: nat)
      in if is_alnum c \<or> c \<in> set ''-_.!~*()'' \<or> c = CHR 0x27 then [c]
         else if n < 128 then CHR ''%'' # hex_byte n
         else CHR ''%'' # hex_byte (192 + n div 64) @ CHR ''%'' # hex_byte (128 + n mod 64))"

definition qs_escape :: "string \<Rightarrow> string" where
  "qs_escape s = concat (map qs_escape_char s)"

text \<open>
  The decimal digits of a number, which is how JavaScript prints an integer below
  \<open>10\<^sup>2\<^sup>1\<close>.
\<close>

function show_nat :: "nat \<Rightarrow> string" where
  "show_nat n =
     (if n < 10 then [''0123456789'' ! n]
      else show_nat (n div 10) @ [''0123456789'' ! (n mod 10)])"
  by pat_completeness auto
termination
  by (relation "measure id") auto

declare show_nat.simps [simp del]

definition show_int :: "int \<Rightarrow> string" where
  "show_int i = (if i < 0 then CHR ''-'' # show_nat (nat (- i)) else show_nat (nat i))"

text \<open>
  \<open>querystring.stringify\<close> on an object whose values are primitives: strings, finite
  numbers and booleans are printed, every other value gives the empty string.
\<close>

fun stringify_primitive :: "js_value \<Rightarrow> string" where
  "stringify_primitive (JStr s) = qs_escape s"
| "stringify_primitive (JNum i) = show_int i"
| "stringify_primitive (JBool b) = (if b then ''true'' else ''false'')"
| "stringify_primitive v = []"

definition qs_stringify :: "(string \<times> js_value) list \<Rightarrow> string" where
  "qs_stringify q =
     join_with ''&'' (map (\<lambda>(k, v). qs_escape k @ ''='' @ stringify_primitive v) q)"

text \<open>In the path \<open>#\<close> and \<open>?\<close> are escaped.\<close>

definition escape_pathname :: "string \<Rightarrow> string" where
  "escape_pathname p =
     concat (map (\<lambda>c. if c = CHR ''#'' then ''%23'' else if c = CHR ''?'' then ''%3F'' else [c]) p)"

definition node_url_format :: "url_object \<Rightarrow> string" where
  "node_url_format obj =
     (let protocol = (if uo_protocol obj \<noteq> [] \<and> last (uo_protocol obj) \<noteq> CHR '':''
                      then uo_protocol obj @ '':'' else uo_protocol obj);
          pathname0 = escape_pathname (uo_pathname obj);
          qs = qs_stringify (uo_query obj);
          search = (if qs = [] then [] else ''?'' @ qs);
          host = (if uo_slashes obj then ''//'' else []);
          pathname1 = (if uo_slashes obj \<and> pathname0 \<noteq> [] \<and> hd pathname0 \<noteq> CHR ''/''
                       then ''/'' @ pathname0 else pathname0)
      in protocol @ host @ pathname1 @ search)"

subsection \<open>url.parse\<close>

definition is_protocol_char :: "char \<Rightarrow> bool" where
  "is_protocol_char c = (is_alnum c \<or> c = CHR ''.'' \<or> c = CHR ''+'' \<or> c = CHR ''-'')"

definition slashed_protocol :: "string \<Rightarrow> bool" where
  "slashed_protocol p = (p \<in> set [''http'', ''https'', ''ftp'', ''gopher'', ''file'', ''ws'', ''wss''])"

text \<open>
  \<open>querystring.unescape\<close> after the replacement of \<open>+\<close> by a space: a percent
  escape of an ASCII character is decoded.
\<close>

definition hex_val :: "char \<Rightarrow> nat option" where
  "hex_val c =
     (let n = (of_char c :: nat)
      in if 48 \<le> n \<and> n \<le> 57 then Some (n - 48)
         else if 65 \<le> n \<and> n \<le> 70 then Some (n - 55)
         else if 97 \<le> n \<and> n \<le> 102 then Some (n - 87)
         else None)"

fun qs_unescape :: "string \<Rightarrow> string" where
  "qs_unescape (a # b # c # cs) =
     (if a = CHR ''%'' \<and> hex_val b \<noteq> None \<and> hex_val c \<noteq> None \<and> the (hex_val b) < 8
      then char_of (16 * the (hex_val b) + the (hex_val c)) # qs_unescape cs
      else (if a = CHR ''+'' then CHR '' '' else a) # qs_unescape (b # c # cs))"
| "qs_unescape (a # cs) = (if a = CHR ''+'' then CHR '' '' else a) # qs_unescape cs"
| "qs_unescape [] = []"

text \<open>
  \<open>querystring.parse\<close>: the pieces between \<open>&\<close> are cut at their first \<open>=\<close>; a key
  that comes again collects its values in an array.
\<close>

fun qs_add :: "string \<Rightarrow> string \<Rightarrow> (string \<times> qvalue) list \<Rightarrow> (string \<times> qvalue) list" where
  "qs_add k v [] = [(k, QStr v)]"
| "qs_add k v ((k', x) # rest) =
     (if k' = k
      then (k', (case x of QStr a \<Rightarrow> QArr [a, v] | QArr xs \<Rightarrow> QArr (xs @ [v]))) # rest
      else (k', x) # qs_add k v rest)"

definition qs_parse :: "string \<Rightarrow> (string \<times> qvalue) list" where
  "qs_parse s =
     foldl (\<lambda>acc piece.
              if piece = [] then acc
              else qs_add (qs_unescape (takeWhile (\<lambda>c. c \<noteq> CHR ''='') piece))
                          (qs_unescape (drop 1 (dropWhile (\<lambda>c. c \<noteq> CHR ''='') piece)))
                          acc)
           [] (split_on CHR ''&'' s)"

definition node_url_parse :: "string \<Rightarrow> js_error + parsed_url" where
  "node_url_parse u =
     (let run = takeWhile is_protocol_char u;
          after = dropWhile is_protocol_char u;
          hasProto = (run \<noteq> [] \<and> take 1 after = '':'');
          proto = (if hasProto then run else []);
          rest0 = (if hasProto then drop 1 after else u);
          slashes = (hasProto \<and> take 2 rest0 = ''//'' \<and> proto \<noteq> ''javascript'');
          rest1 = (if slashes then drop 2 rest0 else rest0);
          hasHost = (hasProto \<and> proto \<noteq> ''javascript'' \<and> (slashes \<or> \<not> slashed_protocol proto));
          isHostEnd = (\<lambda>c. c = CHR ''/'' \<or> c = CHR ''?'' \<or> c = CHR ''#'');
          host = (if hasHost then takeWhile (\<lambda>c. \<not> isHostEnd c) rest1 else []);
          rest2 = (if hasHost then dropWhile (\<lambda>c. \<not> isHostEnd c) rest1 else rest1);
          beforeHash = takeWhile (\<lambda>c. c \<noteq> CHR ''#'') rest2;
          path = takeWhile (\<lambda>c. c \<noteq> CHR ''?'') beforeHash;
          search = dropWhile (\<lambda>c. c \<noteq> CHR ''?'') beforeHash
      in Inr \<lparr>pathname =
                (if path \<noteq> [] then Some path
                 else if slashed_protocol proto \<and> host \<noteq> [] then Some ''/''
                 else None),
              hostname = (if hasHost then Some host else None),
              query = qs_parse (drop 1 search)\<rparr>)"

text \<open>
  A path without special characters: letters, digits, \<open>/\<close>, \<open>.\<close>, \<open>-\<close> and
  \<open>_\<close> only. A plain segment is a non-empty piece of such a path between two
  separators, other than \<open>.\<close> and \<open>..\<close>.
\<close>

definition is_plain_char :: "char \<Rightarrow> bool" where
  "is_plain_char c =
     (is_alnum c \<or> c = CHR ''/'' \<or> c = CHR ''.'' \<or> c = CHR ''-'' \<or> c = CHR ''_'')"

definition plain_segment :: "string \<Rightarrow> bool" where
  "plain_segment s = (s \<noteq> [] \<and> CHR ''/'' \<notin> set s \<and> s \<noteq> ''.'' \<and> s \<noteq> ''..'')"

text \<open>
  A piece of a path segment between two encoded spaces: no white space, no \<open>%\<close> and no
  separator.
\<close>

definition plain_piece :: "string \<Rightarrow> bool" where
  "plain_piece s = (\<forall>c\<in>set s. \<not> is_js_space c \<and> c \<noteq> CHR ''%'' \<and> c \<noteq> CHR ''/'')"

text \<open>Node on a POSIX platform, given what \<open>ejs.renderFile\<close> computes.\<close>

definition node_posix :: "(string \<Rightarrow> js_value \<Rightarrow> ejs_failure + string) \<Rightarrow> node" where
  "node_posix ejs =
     \<lparr>platform_win32 = False,
      url_parse = node_url_parse,
      url_format = node_url_format,
      path_join = posix_join,
      ejs_renderFile = ejs\<rparr>"

section \<open>Example configurations\<close>

text \<open>
  Concrete instances on which the module is evaluated below: Node on POSIX with an EJS
  that renders every file to the same text, the instance built by the constructor with a
  given ignore list and every other option left out, and the instance of the
  specification's scenario, where a renderer \<open>tpl\<close> with extension \<open>.tpl\<close> prints
  the \<open>title\<close> of its data and has been activated.
\<close>

definition demo_node :: node where
  "demo_node = node_posix (\<lambda>filePath vd. Inr ''<p>ok</p>'')"

definition demo_options :: "string list \<Rightarrow> options" where
  "demo_options ign =
     \<lparr>o_viewPath = None, o_viewProtcolName = None, o_useAssets = None,
      o_assetsPath = None, o_assetsProtocolName = None, o_ignoreExtensions = Some ign\<rparr>"

definition demo_instance :: "string list \<Rightarrow> evr" where
  "demo_instance ign = projr (constructor demo_node (demo_options ign))"

text \<open>
  \<open>(filePath, data, callback) => callback("<h1>" + data.title + "</h1>")\<close> on data
  whose \<open>title\<close> is a string; reading \<open>title\<close> of \<open>undefined\<close> or \<open>null\<close> throws.
\<close>

definition tpl_action :: action where
  "tpl_action filePath vd =
     (case vd of
        JObj ps \<Rightarrow>
          (case map_of ps ''title'' of
             Some (JStr t) \<Rightarrow> Callback (''<h1>'' @ t @ ''</h1>'')
           | _ \<Rightarrow> Callback ''<h1>undefined</h1>'')
      | JUndefined \<Rightarrow> Throw TypeError
      | JNull \<Rightarrow> Throw TypeError
      | _ \<Rightarrow> Callback ''<h1>undefined</h1>'')"

definition tpl_data :: add_data where
  "tpl_data =
     \<lparr>d_extension = Some ''.tpl'',
      d_rendererAction = \<lparr>fn_name = ''rendererAction'', fn_call = tpl_action\<rparr>\<rparr>"

definition demo_tpl :: evr where
  "demo_tpl = projr (use ''tpl'' (projr (add (Some ''tpl'') tpl_data (demo_instance []))))"

text \<open>
  An instance with the ignore list \<open>['.map']\<close> on which \<open>tpl\<close> has been added and
  \<open>use\<close> has not been called.
\<close>

definition demo_registered :: evr where
  "demo_registered = projr (add (Some ''tpl'') tpl_data (demo_instance [''.map'']))"

text \<open>The constructed instance after \<open>use('ejs')\<close>.\<close>

definition demo_active :: "string list \<Rightarrow> evr" where
  "demo_active ign = projr (use ''ejs'' (demo_instance ign))"


section \<open>Auxiliary facts\<close>

lemma substr_from_suffix:
  "(substr_from s (int (length s) - int (length ext)) = ext) = suffix ext s"
proof (cases "length ext \<le> length s")
  case True
  then have "substr_from s (int (length s) - int (length ext)) = drop (length s - length ext) s"
    by (simp add: substr_from_def nat_diff_distrib')
  moreover have "(drop (length s - length ext) s = ext) = suffix ext s"
    using True by (auto simp: suffix_def) (metis append_take_drop_id)
  ultimately show ?thesis by simp
next
  case False
  then have "length (substr_from s (int (length s) - int (length ext))) < length ext"
    by (simp add: substr_from_def)
  then have "substr_from s (int (length s) - int (length ext)) \<noteq> ext" by auto
  moreover have "\<not> suffix ext s" using False by (auto simp: suffix_def)
  ultimately show ?thesis by simp
qed

lemma ignore_step_eq:
  "ignore_step fp s ext =
     (if suffix ext fp
      then (settle (Resolved \<lparr>mimeType = ''text/html'', data = []\<rparr>) (fst s), True)
      else s)"
  by (simp add: ignore_step_def substr_from_suffix)

lemma ignore_scan_none:
  "\<forall>ext\<in>set exts. \<not> suffix ext fp \<Longrightarrow> foldl (ignore_step fp) s exts = s"
  by (induction exts arbitrary: s) (simp_all add: ignore_step_eq)

lemma ignore_scan_settled:
  "foldl (ignore_step fp) (Some oc, True) exts = (Some oc, True)"
  by (induction exts) (simp_all add: ignore_step_eq settle_def)

lemma ignore_scan_some:
  "\<exists>ext\<in>set exts. suffix ext fp \<Longrightarrow>
   foldl (ignore_step fp) (None, False) exts =
     (Some (Resolved \<lparr>mimeType = ''text/html'', data = []\<rparr>), True)"
proof (induction exts)
  case Nil
  then show ?case by simp
next
  case (Cons e es)
  show ?case
  proof (cases "suffix e fp")
    case True
    then have "ignore_step fp (None, False) e =
                 (Some (Resolved \<lparr>mimeType = ''text/html'', data = []\<rparr>), True)"
      by (simp add: ignore_step_eq settle_def)
    then show ?thesis by (simp add: ignore_scan_settled)
  next
    case False
    then have "ignore_step fp (None, False) e = (None, False)"
      by (simp add: ignore_step_eq)
    with Cons False show ?thesis by simp
  qed
qed

lemma candidate_path_parsed:
  "candidate_path N st u = Inr fp \<Longrightarrow> \<exists>pu. url_parse N u = Inr pu"
  by (auto simp: candidate_path_def split: sum.splits)

lemma render_ignored:
  assumes "candidate_path N st u = Inr fp"
    and "\<exists>ext\<in>set (ingnoreExtensions st). suffix ext fp"
  shows "renderTemplate N st u =
           \<lparr>outcome = Resolved \<lparr>mimeType = ''text/html'', data = []\<rparr>, invoked = []\<rparr>"
proof -
  obtain pu where pu: "url_parse N u = Inr pu"
    using assms(1) candidate_path_parsed by blast
  have ne: "ingnoreExtensions st \<noteq> []" using assms(2) by auto
  have "foldl (ignore_step fp) (None, False) (ingnoreExtensions st) =
          (Some (Resolved \<lparr>mimeType = ''text/html'', data = []\<rparr>), True)"
    using assms(2) by (rule ignore_scan_some)
  then show ?thesis
    using pu assms(1) ne by (simp add: renderTemplate_def Let_def)
qed

lemma render_not_ignored:
  assumes "url_parse N u = Inr pu"
    and "candidate_path N st u = Inr fp"
    and "\<forall>ext\<in>set (ingnoreExtensions st). \<not> suffix ext fp"
  shows "renderTemplate N st u =
           call_action (currentRenderer st) fp (lookup_viewData st (query pu))"
  using assms by (simp add: renderTemplate_def Let_def ignore_scan_none)

lemma render_no_path:
  "candidate_path N st u = Inl e \<Longrightarrow>
   renderTemplate N st u = \<lparr>outcome = Rejected e, invoked = []\<rparr>"
  by (auto simp: renderTemplate_def candidate_path_def split: sum.splits)

lemma call_action_descriptor:
  "call_action (Descriptor d) fp vd =
     \<lparr>outcome = (case fn_call (rendererAction d) fp vd of
                   Callback html \<Rightarrow> Resolved \<lparr>mimeType = ''text/html'', data = html\<rparr>
                 | Throw e \<Rightarrow> Rejected e
                 | NoCallback \<Rightarrow> Pending),
      invoked = [(fp, vd)]\<rparr>"
  by (simp add: call_action_def)

lemma undefined_renderer_no_path:
  "currentRenderer st = UndefinedRenderer \<Longrightarrow> \<exists>e. candidate_path N st u = Inl e"
  by (auto simp: candidate_path_def renderer_extension_def split: sum.splits)

lemma null_renderer_no_path:
  "currentRenderer st = NullRenderer \<Longrightarrow> \<exists>e. candidate_path N st u = Inl e"
  by (auto simp: candidate_path_def renderer_extension_def split: sum.splits)

lemma load_stored_view:
  "stored_view (l_state (load N v vd q st)) k =
     (if k = v then Some \<lparr>viewData = vd\<rparr> else stored_view st k)"
  by (simp add: load_def Let_def set_view_def stored_view_def)

lemma load_keeps:
  "currentRenderer (l_state (load N v vd q st)) = currentRenderer st"
  "renderers (l_state (load N v vd q st)) = renderers st"
  "renderers_proto (l_state (load N v vd q st)) = renderers_proto st"
  "viewPath (l_state (load N v vd q st)) = viewPath st"
  "ingnoreExtensions (l_state (load N v vd q st)) = ingnoreExtensions st"
  by (simp_all add: load_def Let_def set_view_def)

text \<open>
  A stored entry is what the lookup finds under its key; a key without a stored entry
  reads data only when it is \<open>viewData\<close> and an entry has replaced the prototype.
\<close>

lemma lookup_stored:
  "stored_view st (view_key q) = Some entry \<Longrightarrow>
   lookup_viewData st q = (if truthy (viewData entry) then viewData entry else JUndefined)"
  by (auto simp: lookup_viewData_def views_read_def stored_view_def split: if_splits)


lemma add_keeps_current:
  "add nm d st = Inr st' \<Longrightarrow> currentRenderer st' = currentRenderer st"
  by (auto simp: add_def set_renderer_def split: option.splits if_splits)

subsection \<open>The example configurations, evaluated\<close>

lemma constructor_Inr:
  "constructor N opts =
     Inr \<lparr>renderers = [''ejs'' \<mapsto> \<lparr>extension = Some ''.ejs'',
                                    rendererAction = \<lparr>fn_name = ''rendererAction'',
                                                      fn_call = ejs_action N\<rparr>,
                                    name = ''ejs''\<rparr>],
          renderers_proto = None,
          currentRenderer = EmptyObject,
          views = Map.empty,
          views_proto = None,
          viewProtcolName = (case o_viewProtcolName opts of None \<Rightarrow> ''view'' | Some x \<Rightarrow> x),
          useAssets = (case o_useAssets opts of None \<Rightarrow> False | Some x \<Rightarrow> x),
          assetsPath = (case o_assetsPath opts of None \<Rightarrow> ''assets'' | Some x \<Rightarrow> x),
          assetsProtocolName =
            (case o_assetsProtocolName opts of None \<Rightarrow> ''asset'' | Some x \<Rightarrow> x),
          viewPath = (case o_viewPath opts of None \<Rightarrow> ''views'' | Some x \<Rightarrow> x),
          ingnoreExtensions = (case o_ignoreExtensions opts of None \<Rightarrow> [] | Some x \<Rightarrow> x),
          readyListeners = 0\<rparr>"
  by (simp add: constructor_def populateDefaultRenderers_def populateEJSRenderer_def add_def
        set_renderer_def)

lemma demo_instance_fields:
  "currentRenderer (demo_instance ign) = EmptyObject"
  "views (demo_instance ign) = Map.empty"
  "views_proto (demo_instance ign) = None"
  "viewPath (demo_instance ign) = ''views''"
  "assetsPath (demo_instance ign) = ''assets''"
  "ingnoreExtensions (demo_instance ign) = ign"
  "renderers (demo_instance ign) =
     [''ejs'' \<mapsto> \<lparr>extension = Some ''.ejs'',
                   rendererAction = \<lparr>fn_name = ''rendererAction'',
                                     fn_call = ejs_action demo_node\<rparr>,
                   name = ''ejs''\<rparr>]"
  "renderers_proto (demo_instance ign) = None"
  by (simp_all add: demo_instance_def constructor_Inr demo_options_def)

lemma demo_tpl_fields:
  "currentRenderer demo_tpl =
     Descriptor \<lparr>extension = Some ''.tpl'',
                 rendererAction = \<lparr>fn_name = ''rendererAction'', fn_call = tpl_action\<rparr>,
                 name = ''tpl''\<rparr>"
  "views demo_tpl = Map.empty"
  "views_proto demo_tpl = None"
  "viewPath demo_tpl = ''views''"
  "ingnoreExtensions demo_tpl = []"
  by (simp_all add: demo_tpl_def tpl_data_def add_def set_renderer_def use_def
        renderer_lookup_def demo_instance_def constructor_Inr demo_options_def)

lemma demo_active_fields:
  "currentRenderer (demo_active ign) =
     Descriptor \<lparr>extension = Some ''.ejs'',
                 rendererAction = \<lparr>fn_name = ''rendererAction'',
                                   fn_call = ejs_action demo_node\<rparr>,
                 name = ''ejs''\<rparr>"
  "views (demo_active ign) = Map.empty"
  "views_proto (demo_active ign) = None"
  "viewPath (demo_active ign) = ''views''"
  "ingnoreExtensions (demo_active ign) = ign"
  by (simp_all add: demo_active_def use_def renderer_lookup_def demo_instance_def
        constructor_Inr demo_options_def)

lemma demo_registered_fields:
  "currentRenderer demo_registered = EmptyObject"
  "viewPath demo_registered = ''views''"
  "ingnoreExtensions demo_registered = [''.map'']"
  "renderers demo_registered ''tpl'' =
     Some \<lparr>extension = Some ''.tpl'',
           rendererAction = \<lparr>fn_name = ''rendererAction'', fn_call = tpl_action\<rparr>,
           name = ''tpl''\<rparr>"
  by (simp_all add: demo_registered_def tpl_data_def add_def set_renderer_def
        demo_instance_def constructor_Inr demo_options_def)

lemma demo_node_fields:
  "platform_win32 demo_node = False"
  "url_parse demo_node = node_url_parse"
  "url_format demo_node = node_url_format"
  "path_join demo_node = posix_join"
  by (simp_all add: demo_node_def node_posix_def)

section \<open>The renderer registry\<close>

text \<open>
  C6. \<open>add\<close> throws \<open>Error('Renderer name required')\<close> for an absent and for an empty
  name; for every other name it returns normally, the descriptor stored under the name is
  the one built from the given extension and action, whatever was stored there before, and
  reading \<open>this.renderers[name]\<close> yields it. The descriptors stored under other names,
  the current renderer and the view data are as they were, and for a name other than
  \<open>__proto__\<close> so is what \<open>this.renderers\<close> yields under every other name.
\<close>

theorem add_registers:
  "add None d st = Inl (Error ''Renderer name required'')
   \<and> add (Some []) d st = Inl (Error ''Renderer name required'')
   \<and> (n \<noteq> [] \<longrightarrow>
        (\<exists>st'. add (Some n) d st = Inr st'
           \<and> stored_renderer st' n = Some \<lparr>extension = d_extension d,
                                             rendererAction = d_rendererAction d, name = n\<rparr>
           \<and> renderer_lookup st' n = Descriptor \<lparr>extension = d_extension d,
                                                  rendererAction = d_rendererAction d, name = n\<rparr>
           \<and> (\<forall>m. m \<noteq> n \<longrightarrow> stored_renderer st' m = stored_renderer st m)
           \<and> (n \<noteq> ''__proto__'' \<longrightarrow>
                 (\<forall>m. m \<noteq> n \<longrightarrow> renderer_lookup st' m = renderer_lookup st m))
           \<and> currentRenderer st' = currentRenderer st
           \<and> views st' = views st
           \<and> views_proto st' = views_proto st))"
proof -
  let ?desc = "\<lparr>extension = d_extension d, rendererAction = d_rendererAction d, name = n\<rparr>"
  have frame: "renderer_lookup (set_renderer n ?desc st) m = renderer_lookup st m"
    if "n \<noteq> ''__proto__''" and "m \<noteq> n" for m
    using that by (simp add: set_renderer_def renderer_lookup_def split: option.splits)
  have stored: "stored_renderer (set_renderer n ?desc st) m =
                  (if m = n then Some ?desc else stored_renderer st m)" for m
    by (simp add: set_renderer_def stored_renderer_def)
  have look: "renderer_lookup (set_renderer n ?desc st) n = Descriptor ?desc"
    by (simp add: set_renderer_def renderer_lookup_def)
  have rest: "currentRenderer (set_renderer n ?desc st) = currentRenderer st"
    "views (set_renderer n ?desc st) = views st"
    "views_proto (set_renderer n ?desc st) = views_proto st"
    by (simp_all add: set_renderer_def)
  show ?thesis
    using frame stored look rest by (simp add: add_def)
qed

theorem add_registers_witness:
  "''ejs'' \<noteq> []
   \<and> ''ejs'' \<noteq> ''__proto__''
   \<and> (\<exists>st'. add (Some ''ejs'') tpl_data (demo_instance []) = Inr st'
          \<and> renderer_lookup st' ''ejs'' =
              Descriptor \<lparr>extension = Some ''.tpl'',
                          rendererAction = \<lparr>fn_name = ''rendererAction'', fn_call = tpl_action\<rparr>,
                          name = ''ejs''\<rparr>
          \<and> renderer_lookup st' ''pug'' = renderer_lookup (demo_instance []) ''pug'')"
proof -
  have h: "''ejs'' \<noteq> []" and h': "''ejs'' \<noteq> ''__proto__''" and h'': "''pug'' \<noteq> ''ejs''"
    by simp_all
  from add_registers [of tpl_data "demo_instance []" "''ejs''"] h h' h''
  show ?thesis by (auto simp: tpl_data_def)
qed

text \<open>
  C4, as the code has it. \<open>use\<close> never throws: it makes \<open>this.renderers[name]\<close> the
  current renderer, whatever that is. When a descriptor is stored under the name, that
  descriptor is selected. When none is, the call returns normally all the same and what is
  selected is not a descriptor; it is \<open>undefined\<close> for a name that the registry object
  does not inherit. The registry and the view data are unchanged.
\<close>

theorem use_selects:
  "\<exists>st'. use n st = Inr st'
      \<and> currentRenderer st' = renderer_lookup st n
      \<and> (\<forall>d. stored_renderer st n = Some d \<longrightarrow> currentRenderer st' = Descriptor d)
      \<and> (stored_renderer st n = None \<longrightarrow> (\<forall>d. currentRenderer st' \<noteq> Descriptor d))
      \<and> (stored_renderer st n = None \<longrightarrow> renderers_proto st = None \<longrightarrow>
           n \<notin> set (''__proto__'' # object_prototype_functions) \<longrightarrow>
           currentRenderer st' = UndefinedRenderer)
      \<and> renderers st' = renderers st
      \<and> renderers_proto st' = renderers_proto st
      \<and> views st' = views st
      \<and> views_proto st' = views_proto st"
proof -
  have a: "\<forall>d. stored_renderer st n = Some d \<longrightarrow> renderer_lookup st n = Descriptor d"
    by (auto simp: stored_renderer_def renderer_lookup_def split: if_splits)
  have b: "stored_renderer st n = None \<longrightarrow> (\<forall>d. renderer_lookup st n \<noteq> Descriptor d)"
    by (auto simp: stored_renderer_def renderer_lookup_def object_prototype_member_def
          split: if_splits option.splits)
  have c: "stored_renderer st n = None \<longrightarrow> renderers_proto st = None \<longrightarrow>
           n \<notin> set (''__proto__'' # object_prototype_functions) \<longrightarrow>
           renderer_lookup st n = UndefinedRenderer"
    by (auto simp: stored_renderer_def renderer_lookup_def object_prototype_member_def
          object_prototype_functions_def split: if_splits)
  show ?thesis using a b c by (simp add: use_def)
qed

theorem use_selects_witness:
  "stored_renderer (demo_instance []) ''ejs'' =
     Some \<lparr>extension = Some ''.ejs'',
           rendererAction = \<lparr>fn_name = ''rendererAction'', fn_call = ejs_action demo_node\<rparr>,
           name = ''ejs''\<rparr>
   \<and> currentRenderer (projr (use ''ejs'' (demo_instance []))) =
       Descriptor \<lparr>extension = Some ''.ejs'',
                   rendererAction = \<lparr>fn_name = ''rendererAction'',
                                     fn_call = ejs_action demo_node\<rparr>,
                   name = ''ejs''\<rparr>
   \<and> stored_renderer (demo_instance []) ''pug'' = None
   \<and> renderers_proto (demo_instance []) = None
   \<and> ''pug'' \<notin> set (''__proto__'' # object_prototype_functions)
   \<and> currentRenderer (projr (use ''pug'' (demo_instance []))) = UndefinedRenderer"
proof -
  have h1: "stored_renderer (demo_instance []) ''ejs'' =
     Some \<lparr>extension = Some ''.ejs'',
           rendererAction = \<lparr>fn_name = ''rendererAction'', fn_call = ejs_action demo_node\<rparr>,
           name = ''ejs''\<rparr>"
    by (simp add: stored_renderer_def demo_instance_fields)
  have h2: "stored_renderer (demo_instance []) ''pug'' = None"
    by (simp add: stored_renderer_def demo_instance_fields)
  have h3: "renderers_proto (demo_instance []) = None"
    by (simp add: demo_instance_fields)
  have h4: "''pug'' \<notin> set (''__proto__'' # object_prototype_functions)"
    by (simp add: object_prototype_functions_def)
  from use_selects [of "''ejs''" "demo_instance []"] h1
  have r1: "currentRenderer (projr (use ''ejs'' (demo_instance []))) =
       Descriptor \<lparr>extension = Some ''.ejs'',
                   rendererAction = \<lparr>fn_name = ''rendererAction'',
                                     fn_call = ejs_action demo_node\<rparr>,
                   name = ''ejs''\<rparr>"
    by auto
  from use_selects [of "''pug''" "demo_instance []"] h2 h3 h4
  have r2: "currentRenderer (projr (use ''pug'' (demo_instance []))) = UndefinedRenderer"
    by auto
  show ?thesis by (intro conjI h1 h2 h3 h4 r1 r2)
qed

theorem use_unregistered_counterexample:
  "stored_renderer (demo_instance []) ''pug'' = None
   \<and> \<not> isl (use ''pug'' (demo_instance []))
   \<and> currentRenderer (projr (use ''pug'' (demo_instance []))) = UndefinedRenderer"
  by (simp add: demo_instance_fields stored_renderer_def use_def renderer_lookup_def
        object_prototype_member_def object_prototype_functions_def)

text \<open>
  A name that the registry object inherits selects the inherited value:
  \<open>use('constructor')\<close> selects the function \<open>Object\<close>, the extension becomes
  \<open>.Object\<close>, and a request whose candidate path is on the ignore list is answered.
\<close>

lemma use_inherited_name:
  "stored_renderer (demo_instance [''.Object'']) ''constructor'' = None
   \<and> currentRenderer (projr (use ''constructor'' (demo_instance [''.Object''])))
       = OtherValue (Some ''Object'')
   \<and> renderTemplate demo_node (projr (use ''constructor'' (demo_instance [''.Object'']))) 
        ''view:///index'' =
       \<lparr>outcome = Resolved \<lparr>mimeType = ''text/html'', data = []\<rparr>, invoked = []\<rparr>"
proof -
  have a: "stored_renderer (demo_instance [''.Object'']) ''constructor'' = None"
    by (simp add: demo_instance_fields stored_renderer_def)
  have b: "currentRenderer (projr (use ''constructor'' (demo_instance [''.Object''])))
       = OtherValue (Some ''Object'')"
    by (simp add: demo_instance_fields use_def renderer_lookup_def object_prototype_member_def)
  have c: "renderTemplate demo_node (projr (use ''constructor'' (demo_instance [''.Object''])))
        ''view:///index'' =
       \<lparr>outcome = Resolved \<lparr>mimeType = ''text/html'', data = []\<rparr>, invoked = []\<rparr>"
    by code_simp
  show ?thesis by (intro conjI a b c)
qed

section \<open>Dispatching a request\<close>

text \<open>
  C5. When the candidate file path of a request ends with an entry of the ignore list,
  the promise is resolved with the empty \<open>text/html\<close> response, which the protocol
  handler passes to the host, and no renderer action is called. Nothing is assumed about
  the current renderer beyond a candidate path having been composed, so this holds before
  activation as well.
\<close>

theorem ignored_path_short_circuits:
  assumes "candidate_path N st u = Inr filePath"
    and "ext \<in> set (ingnoreExtensions st)"
    and "suffix ext filePath"
  shows "renderTemplate N st u =
           \<lparr>outcome = Resolved \<lparr>mimeType = ''text/html'', data = []\<rparr>, invoked = []\<rparr>
         \<and> setupViewProtocol_handler N st u =
             \<lparr>replied = Some \<lparr>mimeType = ''text/html'', data = []\<rparr>, logged = None\<rparr>"
proof -
  have "\<exists>e\<in>set (ingnoreExtensions st). suffix e filePath"
    using assms(2,3) by blast
  with assms(1) have "renderTemplate N st u =
           \<lparr>outcome = Resolved \<lparr>mimeType = ''text/html'', data = []\<rparr>, invoked = []\<rparr>"
    by (rule render_ignored)
  then show ?thesis by (simp add: setupViewProtocol_handler_def)
qed

theorem ignored_path_short_circuits_witness:
  "currentRenderer (demo_instance [''.map.undefined'']) = EmptyObject
   \<and> candidate_path demo_node (demo_instance [''.map.undefined'']) ''view:///app.js.map''
       = Inr ''views/app.js.map.undefined''
   \<and> ''.map.undefined'' \<in> set (ingnoreExtensions (demo_instance [''.map.undefined'']))
   \<and> suffix ''.map.undefined'' ''views/app.js.map.undefined''
   \<and> renderTemplate demo_node (demo_instance [''.map.undefined'']) ''view:///app.js.map'' =
       \<lparr>outcome = Resolved \<lparr>mimeType = ''text/html'', data = []\<rparr>, invoked = []\<rparr>"
proof -
  have h0: "currentRenderer (demo_instance [''.map.undefined'']) = EmptyObject"
    by (simp add: demo_instance_fields)
  have h1: "candidate_path demo_node (demo_instance [''.map.undefined'']) ''view:///app.js.map''
              = Inr ''views/app.js.map.undefined''"
    by code_simp
  have h2: "''.map.undefined'' \<in> set (ingnoreExtensions (demo_instance [''.map.undefined'']))"
    by (simp add: demo_instance_fields)
  have h3: "suffix ''.map.undefined'' ''views/app.js.map.undefined''"
    by (simp add: suffix_to_prefix)
  from ignored_path_short_circuits [OF h1 h2 h3] h0 h1 h2 h3
  show ?thesis by simp
qed

text \<open>
  C3, as the code has it. There is no check that a renderer has been activated and no
  error kind of its own. Before any \<open>use\<close> the current renderer is the empty object,
  and a request whose candidate path matches no entry of the ignore list is rejected
  without any renderer action being called, whatever the registry holds: with the
  \<open>TypeError\<close> of calling the missing action when a candidate path was composed, with
  the earlier exception otherwise. The protocol handler logs the error and never calls
  the host's callback.
\<close>

theorem request_before_activation:
  assumes "currentRenderer st = EmptyObject"
    and "\<forall>fp. candidate_path N st u = Inr fp \<longrightarrow>
              (\<forall>ext\<in>set (ingnoreExtensions st). \<not> suffix ext fp)"
  shows "\<exists>e. renderTemplate N st u = \<lparr>outcome = Rejected e, invoked = []\<rparr>
            \<and> setupViewProtocol_handler N st u = \<lparr>replied = None, logged = Some e\<rparr>
            \<and> (\<forall>fp. candidate_path N st u = Inr fp \<longrightarrow> e = TypeError)"
proof (cases "candidate_path N st u")
  case (Inl e)
  then have "renderTemplate N st u = \<lparr>outcome = Rejected e, invoked = []\<rparr>"
    by (rule render_no_path)
  with Inl show ?thesis by (simp add: setupViewProtocol_handler_def)
next
  case (Inr fp)
  then obtain pu where pu: "url_parse N u = Inr pu"
    using candidate_path_parsed by blast
  have "\<forall>ext\<in>set (ingnoreExtensions st). \<not> suffix ext fp"
    using assms(2) Inr by blast
  with pu Inr have "renderTemplate N st u =
      call_action (currentRenderer st) fp (lookup_viewData st (query pu))"
    by (rule render_not_ignored)
  then have "renderTemplate N st u = \<lparr>outcome = Rejected TypeError, invoked = []\<rparr>"
    using assms(1) by (simp add: call_action_def)
  with Inr show ?thesis by (simp add: setupViewProtocol_handler_def)
qed

theorem request_before_activation_witness:
  "renderers demo_registered ''tpl'' =
     Some \<lparr>extension = Some ''.tpl'',
           rendererAction = \<lparr>fn_name = ''rendererAction'', fn_call = tpl_action\<rparr>,
           name = ''tpl''\<rparr>
   \<and> currentRenderer demo_registered = EmptyObject
   \<and> candidate_path demo_node demo_registered ''view:///index?_view=index''
       = Inr ''views/index.undefined''
   \<and> ingnoreExtensions demo_registered = [''.map'']
   \<and> \<not> suffix ''.map'' ''views/index.undefined''
   \<and> renderTemplate demo_node demo_registered ''view:///index?_view=index'' =
       \<lparr>outcome = Rejected TypeError, invoked = []\<rparr>
   \<and> setupViewProtocol_handler demo_node demo_registered ''view:///index?_view=index''
       = \<lparr>replied = None, logged = Some TypeError\<rparr>"
proof -
  have h0: "currentRenderer demo_registered = EmptyObject"
    by (simp add: demo_registered_fields)
  have h1: "candidate_path demo_node demo_registered ''view:///index?_view=index''
              = Inr ''views/index.undefined''"
    by code_simp
  have h4: "ingnoreExtensions demo_registered = [''.map'']"
    by (simp add: demo_registered_fields)
  have h5: "\<not> suffix ''.map'' ''views/index.undefined''"
    by (simp add: suffix_to_prefix)
  have h3: "\<forall>fp. candidate_path demo_node demo_registered
                    ''view:///index?_view=index'' = Inr fp \<longrightarrow>
              (\<forall>ext\<in>set (ingnoreExtensions demo_registered). \<not> suffix ext fp)"
    using h1 h4 h5 by simp
  have r: "renderers demo_registered ''tpl'' =
     Some \<lparr>extension = Some ''.tpl'',
           rendererAction = \<lparr>fn_name = ''rendererAction'', fn_call = tpl_action\<rparr>,
           name = ''tpl''\<rparr>"
    by (simp add: demo_registered_fields)
  from request_before_activation [OF h0 h3] h0 h1 h4 h5 r
  show ?thesis by auto
qed

theorem request_before_activation_counterexample:
  "currentRenderer (demo_instance [''.undefined'']) = EmptyObject
   \<and> renderTemplate demo_node (demo_instance [''.undefined'']) ''view:///index'' =
       \<lparr>outcome = Resolved \<lparr>mimeType = ''text/html'', data = []\<rparr>, invoked = []\<rparr>
   \<and> currentRenderer (demo_instance []) = EmptyObject
   \<and> setupViewProtocol_handler demo_node (demo_instance []) ''view:///index'' =
       \<lparr>replied = None, logged = Some TypeError\<rparr>"
proof -
  have r1: "renderTemplate demo_node (demo_instance [''.undefined'']) ''view:///index'' =
       \<lparr>outcome = Resolved \<lparr>mimeType = ''text/html'', data = []\<rparr>, invoked = []\<rparr>"
    by code_simp
  have r2: "setupViewProtocol_handler demo_node (demo_instance []) ''view:///index'' =
       \<lparr>replied = None, logged = Some TypeError\<rparr>"
    by code_simp
  show ?thesis using r1 r2 by (simp add: demo_instance_fields)
qed




text \<open>
  C1, as the code has it. While the entry that \<open>load\<close> stored under \<open>v\<close> is still the
  entry stored under \<open>v\<close>, a request whose \<open>_view\<close> is \<open>v\<close> and which reaches the
  active renderer (its candidate path is not on the ignore list) calls the action exactly
  once with the stored data itself when that data is truthy, and with \<open>undefined\<close> when it
  is falsy (\<open>undefined\<close>, \<open>null\<close>, \<open>false\<close>, \<open>0\<close>, \<open>NaN\<close> or the empty string).
\<close>

theorem loaded_data_reaches_renderer:
  assumes "stored_view st' v = stored_view (l_state (load N v vd q st)) v"
    and "currentRenderer st' = Descriptor d"
    and "url_parse N u = Inr pu"
    and "map_of (query pu) ''_view'' = Some (QStr v)"
    and "candidate_path N st' u = Inr fp"
    and "\<forall>ext\<in>set (ingnoreExtensions st'). \<not> suffix ext fp"
  shows "invoked (renderTemplate N st' u) = [(fp, if truthy vd then vd else JUndefined)]
         \<and> outcome (renderTemplate N st' u) =
             (case fn_call (rendererAction d) fp (if truthy vd then vd else JUndefined) of
                Callback html \<Rightarrow> Resolved \<lparr>mimeType = ''text/html'', data = html\<rparr>
              | Throw e \<Rightarrow> Rejected e
              | NoCallback \<Rightarrow> Pending)"
proof -
  have "renderTemplate N st' u =
          call_action (currentRenderer st') fp (lookup_viewData st' (query pu))"
    using assms(3,5,6) by (rule render_not_ignored)
  moreover have key: "view_key (query pu) = v"
    using assms(4) by (simp add: view_key_def)
  moreover have "stored_view st' (view_key (query pu)) = Some \<lparr>viewData = vd\<rparr>"
    using assms(1) key by (simp add: load_stored_view)
  then have "lookup_viewData st' (query pu) = (if truthy vd then vd else JUndefined)"
    using lookup_stored by fastforce
  ultimately have "renderTemplate N st' u =
      call_action (Descriptor d) fp (if truthy vd then vd else JUndefined)"
    using assms(2) by simp
  then show ?thesis by (simp add: call_action_descriptor)
qed

theorem loaded_data_reaches_renderer_witness:
  "stored_view (l_state (load demo_node ''home'' (JObj [(''title'', JStr ''Hi'')]) None demo_tpl))
       ''home''
     = stored_view
         (l_state (load demo_node ''home'' (JObj [(''title'', JStr ''Hi'')]) None demo_tpl))
         ''home''
   \<and> currentRenderer (l_state (load demo_node ''home'' (JObj [(''title'', JStr ''Hi'')]) None
                                  demo_tpl)) =
       Descriptor \<lparr>extension = Some ''.tpl'',
                   rendererAction = \<lparr>fn_name = ''rendererAction'', fn_call = tpl_action\<rparr>,
                   name = ''tpl''\<rparr>
   \<and> l_url (load demo_node ''home'' (JObj [(''title'', JStr ''Hi'')]) None demo_tpl)
       = ''view:///home?_view=home''
   \<and> url_parse demo_node ''view:///home?_view=home'' =
       Inr \<lparr>pathname = Some ''/home'', hostname = Some [],
            query = [(''_view'', QStr ''home'')]\<rparr>
   \<and> candidate_path demo_node
        (l_state (load demo_node ''home'' (JObj [(''title'', JStr ''Hi'')]) None demo_tpl))
        ''view:///home?_view=home'' = Inr ''views/home.tpl''
   \<and> invoked (renderTemplate demo_node
        (l_state (load demo_node ''home'' (JObj [(''title'', JStr ''Hi'')]) None demo_tpl))
        ''view:///home?_view=home'') = [(''views/home.tpl'', JObj [(''title'', JStr ''Hi'')])]
   \<and> outcome (renderTemplate demo_node
        (l_state (load demo_node ''home'' (JObj [(''title'', JStr ''Hi'')]) None demo_tpl))
        ''view:///home?_view=home'') =
       Resolved \<lparr>mimeType = ''text/html'', data = ''<h1>Hi</h1>''\<rparr>"
proof -
  let ?vd = "JObj [(''title'', JStr ''Hi'')]"
  let ?st = "l_state (load demo_node ''home'' ?vd None demo_tpl)"
  let ?pu = "\<lparr>pathname = Some ''/home'', hostname = Some [],
              query = [(''_view'', QStr ''home'')]\<rparr>"
  have h1: "stored_view ?st ''home'' =
              stored_view (l_state (load demo_node ''home'' ?vd None demo_tpl)) ''home''"
    by simp
  have h2: "currentRenderer ?st =
       Descriptor \<lparr>extension = Some ''.tpl'',
                   rendererAction = \<lparr>fn_name = ''rendererAction'', fn_call = tpl_action\<rparr>,
                   name = ''tpl''\<rparr>"
    by (simp add: load_keeps demo_tpl_fields)
  have h3: "url_parse demo_node ''view:///home?_view=home'' = Inr ?pu"
    by code_simp
  have h4: "map_of (query ?pu) ''_view'' = Some (QStr ''home'')"
    by simp
  have h5: "candidate_path demo_node ?st ''view:///home?_view=home'' = Inr ''views/home.tpl''"
    by code_simp
  have h6: "\<forall>ext\<in>set (ingnoreExtensions ?st). \<not> suffix ext ''views/home.tpl''"
    by (simp add: load_keeps demo_tpl_fields)
  have u: "l_url (load demo_node ''home'' ?vd None demo_tpl) = ''view:///home?_view=home''"
    by code_simp
  have a: "tpl_action ''views/home.tpl'' ?vd = Callback ''<h1>Hi</h1>''"
    by (simp add: tpl_action_def)
  from loaded_data_reaches_renderer [OF h1 h2 h3 h4 h5 h6] h2 h3 h5 u a
  show ?thesis by simp
qed

theorem loaded_data_reaches_renderer_counterexample:
  "stored_view (l_state (load demo_node ''home'' (JNum 0) None (demo_active []))) ''home''
     = Some \<lparr>viewData = JNum 0\<rparr>
   \<and> l_url (load demo_node ''home'' (JNum 0) None (demo_active []))
       = ''view:///home?_view=home''
   \<and> renderTemplate demo_node (l_state (load demo_node ''home'' (JNum 0) None (demo_active [])))
        ''view:///home?_view=home'' =
       \<lparr>outcome = Resolved \<lparr>mimeType = ''text/html'', data = ''<p>ok</p>''\<rparr>,
        invoked = [(''views/home.ejs'', JUndefined)]\<rparr>
   \<and> JUndefined \<noteq> JNum 0"
proof -
  have a: "stored_view (l_state (load demo_node ''home'' (JNum 0) None (demo_active [])))
             ''home'' = Some \<lparr>viewData = JNum 0\<rparr>"
    by (simp add: load_stored_view)
  have b: "l_url (load demo_node ''home'' (JNum 0) None (demo_active []))
       = ''view:///home?_view=home''"
    by code_simp
  have c: "renderTemplate demo_node
             (l_state (load demo_node ''home'' (JNum 0) None (demo_active [])))
             ''view:///home?_view=home'' =
       \<lparr>outcome = Resolved \<lparr>mimeType = ''text/html'', data = ''<p>ok</p>''\<rparr>,
        invoked = [(''views/home.ejs'', JUndefined)]\<rparr>"
    by code_simp
  show ?thesis using a b c by simp
qed




section \<open>load\<close>

text \<open>
  What \<open>load\<close> changes. Called with a query object, it sets the \<open>_view\<close> key of that
  object to the view id and leaves its other keys as they were; the URL it navigates to is
  formatted from the object after that assignment; the entry stored under the view id
  wraps the data, and the entries stored under other ids, like the rest of the instance,
  are unchanged. For a view id other than \<open>__proto__\<close> the entry is an own property of
  the store and what the store yields under every other id is unchanged.
\<close>

lemma load_frame:
  "map_of (l_query (load N view vd (Some q) st)) ''_view'' = Some (JStr view)
   \<and> (\<forall>k. k \<noteq> ''_view'' \<longrightarrow> map_of (l_query (load N view vd (Some q) st)) k = map_of q k)
   \<and> l_url (load N view vd (Some q) st) =
       url_format N \<lparr>uo_pathname = view, uo_protocol = ''view:'',
                     uo_query = l_query (load N view vd (Some q) st), uo_slashes = True\<rparr>
   \<and> stored_view (l_state (load N view vd (Some q) st)) view = Some \<lparr>viewData = vd\<rparr>
   \<and> (\<forall>k. k \<noteq> view \<longrightarrow>
         stored_view (l_state (load N view vd (Some q) st)) k = stored_view st k)
   \<and> (view \<noteq> ''__proto__'' \<longrightarrow>
         views (l_state (load N view vd (Some q) st)) view = Some \<lparr>viewData = vd\<rparr>
         \<and> (\<forall>k. k \<noteq> view \<longrightarrow>
               views_read (l_state (load N view vd (Some q) st)) k = views_read st k))
   \<and> l_state (load N view vd (Some q) st) =
       st\<lparr>views := views (l_state (load N view vd (Some q) st)),
          views_proto := views_proto (l_state (load N view vd (Some q) st))\<rparr>"
  by (simp add: load_def Let_def update_conv' set_view_def stored_view_def views_read_def
        split: option.splits)

text \<open>
  C10 at the view id \<open>__proto__\<close>. The assignment \<open>this._views[view] = {...}\<close> then
  stores no entry under that id: it replaces the prototype of the store, and the id
  \<open>viewData\<close>, which has no entry before or after the call, yields \<open>undefined\<close> before
  it and the loaded data after it, so that a request for \<open>viewData\<close> is rendered with
  different data.
\<close>

theorem load_proto_replaces_prototype:
  "views (l_state (load demo_node ''__proto__'' (JObj [(''viewData'', JStr ''X'')]) (Some [])
                     (demo_active []))) ''__proto__'' = None
   \<and> views (l_state (load demo_node ''__proto__'' (JObj [(''viewData'', JStr ''X'')]) (Some [])
                       (demo_active []))) = views (demo_active [])
   \<and> views_read (demo_active []) ''viewData'' = ReadUndefined
   \<and> views_read (l_state (load demo_node ''__proto__'' (JObj [(''viewData'', JStr ''X'')])
                            (Some []) (demo_active []))) ''viewData''
       = ReadInherited (JObj [(''viewData'', JStr ''X'')])
   \<and> invoked (renderTemplate demo_node (demo_active []) ''view:///page?_view=viewData'')
       = [(''views/page.ejs'', JUndefined)]
   \<and> invoked (renderTemplate demo_node
         (l_state (load demo_node ''__proto__'' (JObj [(''viewData'', JStr ''X'')]) (Some [])
                     (demo_active [])))
         ''view:///page?_view=viewData'') = [(''views/page.ejs'', JStr ''X'')]"
proof -
  let ?st = "l_state (load demo_node ''__proto__'' (JObj [(''viewData'', JStr ''X'')]) (Some [])
                        (demo_active []))"
  have a: "views ?st = views (demo_active [])"
    by (simp add: load_def Let_def set_view_def)
  have a': "views ?st ''__proto__'' = None"
    by (simp add: a demo_active_fields)
  have b: "views_read (demo_active []) ''viewData'' = ReadUndefined"
    by (simp add: views_read_def demo_active_fields object_prototype_functions_def)
  have c: "views_read ?st ''viewData'' = ReadInherited (JObj [(''viewData'', JStr ''X'')])"
    by (simp add: views_read_def load_def Let_def set_view_def demo_active_fields)
  have d: "invoked (renderTemplate demo_node (demo_active []) ''view:///page?_view=viewData'')
       = [(''views/page.ejs'', JUndefined)]"
    by code_simp
  have e: "invoked (renderTemplate demo_node ?st ''view:///page?_view=viewData'')
             = [(''views/page.ejs'', JStr ''X'')]"
    by code_simp
  show ?thesis by (intro conjI a' a b c d e)
qed

section \<open>Formatting and resolving a view URL\<close>

lemma plain_char_facts:
  "is_plain_char c \<Longrightarrow>
     c \<noteq> CHR ''#'' \<and> c \<noteq> CHR ''?'' \<and> c \<noteq> CHR ''%'' \<and> \<not> is_js_space c"
  by (auto simp: is_plain_char_def is_alnum_def is_js_space_def)

lemma escape_pathname_plain:
  "\<forall>c\<in>set p. c \<noteq> CHR ''#'' \<and> c \<noteq> CHR ''?'' \<Longrightarrow> escape_pathname p = p"
  by (induction p) (simp_all add: escape_pathname_def)

lemma replace_spaces_plain:
  "\<forall>c\<in>set s. \<not> is_js_space c \<and> c \<noteq> CHR ''%'' \<Longrightarrow> replace_spaces s = s"
  by (induction s rule: replace_spaces.induct) simp_all

lemma takeWhile_path:
  assumes "\<forall>c\<in>set p. c \<noteq> CHR ''#'' \<and> c \<noteq> CHR ''?''"
    and "search = [] \<or> hd search = CHR ''?''"
  shows "takeWhile (\<lambda>c. c \<noteq> CHR ''?'') (takeWhile (\<lambda>c. c \<noteq> CHR ''#'') (p @ search)) = p"
proof (cases search)
  case Nil
  have "takeWhile (\<lambda>c. c \<noteq> CHR ''#'') p = p"
    using assms(1) by (intro takeWhile_eq_all_conv [THEN iffD2]) simp
  moreover have "takeWhile (\<lambda>c. c \<noteq> CHR ''?'') p = p"
    using assms(1) by (intro takeWhile_eq_all_conv [THEN iffD2]) simp
  ultimately show ?thesis by (simp only: Nil append_Nil2)
next
  case (Cons x xs)
  then have x: "x = CHR ''?''" using assms(2) by simp
  have "takeWhile (\<lambda>c. c \<noteq> CHR ''#'') (p @ search) =
          p @ CHR ''?'' # takeWhile (\<lambda>c. c \<noteq> CHR ''#'') xs"
    using assms(1) Cons x by (simp add: takeWhile_append2)
  moreover have "takeWhile (\<lambda>c. c \<noteq> CHR ''?'') (p @ CHR ''?'' # ys) = p" for ys
    using assms(1) by (simp add: takeWhile_append2)
  ultimately show ?thesis by simp
qed

lemma node_url_parse_view:
  assumes "hd p = CHR ''/''" and "p \<noteq> []"
    and "\<forall>c\<in>set p. c \<noteq> CHR ''#'' \<and> c \<noteq> CHR ''?''"
    and "search = [] \<or> hd search = CHR ''?''"
  shows "\<exists>qr. node_url_parse (''view://'' @ p @ search) =
           Inr \<lparr>pathname = Some p, hostname = Some [], query = qr\<rparr>"
proof -
  obtain p' where p: "p = CHR ''/'' # p'"
    using assms(1,2) by (cases p) auto
  have run: "takeWhile is_protocol_char (''view://'' @ p @ search) = ''view''"
    by (simp add: is_protocol_char_def is_alnum_def)
  have after: "dropWhile is_protocol_char (''view://'' @ p @ search) = '':'' @ ''//'' @ p @ search"
    by (simp add: is_protocol_char_def is_alnum_def)
  have path: "takeWhile (\<lambda>c. c \<noteq> CHR ''?'') (takeWhile (\<lambda>c. c \<noteq> CHR ''#'') (p @ search)) = p"
    using assms(3,4) by (rule takeWhile_path)
  show ?thesis
    unfolding node_url_parse_def Let_def run after
    using path assms(2) by (simp add: p slashed_protocol_def)
qed

lemma node_url_format_view:
  assumes "p \<noteq> []" and "\<forall>c\<in>set p. c \<noteq> CHR ''#'' \<and> c \<noteq> CHR ''?''"
  shows "\<exists>search. (search = [] \<or> hd search = CHR ''?'') \<and>
     node_url_format \<lparr>uo_pathname = p, uo_protocol = ''view:'', uo_query = q,
                      uo_slashes = True\<rparr> =
       ''view://'' @ (if hd p = CHR ''/'' then p else CHR ''/'' # p) @ search"
  using assms by (auto simp: node_url_format_def Let_def escape_pathname_plain)

text \<open>
  C8, as the code has it, on Node's \<open>url.format\<close> and \<open>url.parse\<close>. For a non-empty
  path \<open>p\<close> without special characters, \<open>parseFilePath\<close> applied to the URL that
  \<open>load\<close> formats from \<open>p\<close> gives, on every platform but \<open>win32\<close>, \<open>p\<close> with a
  leading \<open>/\<close> put in front when it has none, and on \<open>win32\<close>, \<open>p\<close> with its
  leading \<open>/\<close> removed when it has one.
\<close>

theorem resolve_format:
  assumes "url_parse N = node_url_parse"
    and "url_format N = node_url_format"
    and "p \<noteq> []"
    and "\<forall>c\<in>set p. is_plain_char c"
  shows "parseFilePath N (l_url (load N p vd q st)) =
           Inr (if platform_win32 N
                then (if hd p = CHR ''/'' then tl p else p)
                else (if hd p = CHR ''/'' then p else CHR ''/'' # p))"
proof -
  let ?p1 = "if hd p = CHR ''/'' then p else CHR ''/'' # p"
  have np: "\<forall>c\<in>set p. c \<noteq> CHR ''#'' \<and> c \<noteq> CHR ''?''"
    using assms(4) plain_char_facts by blast
  have np1: "\<forall>c\<in>set ?p1. c \<noteq> CHR ''#'' \<and> c \<noteq> CHR ''?''"
    using np by simp
  obtain search where s: "search = [] \<or> hd search = CHR ''?''"
    and u: "l_url (load N p vd q st) = ''view://'' @ ?p1 @ search"
    using node_url_format_view [OF assms(3) np] assms(2)
    by (auto simp: load_def Let_def)
  have "hd ?p1 = CHR ''/''" "?p1 \<noteq> []" using assms(3) by auto
  then obtain qr where
    "node_url_parse (''view://'' @ ?p1 @ search) =
       Inr \<lparr>pathname = Some ?p1, hostname = Some [], query = qr\<rparr>"
    using node_url_parse_view [OF _ _ np1 s] by blast
  then have parsed: "url_parse N (l_url (load N p vd q st)) =
       Inr \<lparr>pathname = Some ?p1, hostname = Some [], query = qr\<rparr>"
    using assms(1) u by simp
  have ok: "\<forall>c\<in>set p. \<not> is_js_space c \<and> c \<noteq> CHR ''%''"
    using assms(4) plain_char_facts by blast
  have d2: "replace_spaces p = p"
    using ok by (rule replace_spaces_plain)
  have "\<forall>c\<in>set (tl p). \<not> is_js_space c \<and> c \<noteq> CHR ''%''"
    using ok assms(3) by (cases p) simp_all
  then have d1: "replace_spaces (tl p) = tl p"
    by (rule replace_spaces_plain)
  have "\<not> is_js_space CHR ''/''"
    by (simp add: is_js_space_def)
  then have "\<forall>c\<in>set (CHR ''/'' # p). \<not> is_js_space c \<and> c \<noteq> CHR ''%''"
    using ok by simp
  then have d3: "replace_spaces (CHR ''/'' # p) = CHR ''/'' # p"
    by (rule replace_spaces_plain)
  have tl1: "substr_from ?p1 1 = (if hd p = CHR ''/'' then tl p else p)"
    by (simp add: substr_from_def drop_Suc)
  show ?thesis
  proof (cases "platform_win32 N")
    case True
    then have "parseFilePath N (l_url (load N p vd q st)) =
                 Inr (replace_spaces (substr_from ?p1 1))"
      using parsed by (simp add: parseFilePath_def)
    then show ?thesis using True tl1 d1 d2 by simp
  next
    case False
    then have "parseFilePath N (l_url (load N p vd q st)) = Inr (replace_spaces ?p1)"
      using parsed by (simp add: parseFilePath_def)
    then show ?thesis using False d2 d3 by simp
  qed
qed

theorem resolve_format_witness:
  "url_parse demo_node = node_url_parse
   \<and> url_format demo_node = node_url_format
   \<and> ''sub/index'' \<noteq> []
   \<and> list_all is_plain_char ''sub/index''
   \<and> l_url (load demo_node ''sub/index'' JUndefined None demo_tpl)
       = ''view:///sub/index?_view=sub%2Findex''
   \<and> parseFilePath demo_node (l_url (load demo_node ''sub/index'' JUndefined None demo_tpl))
       = Inr ''/sub/index''"
proof -
  have h1: "url_parse demo_node = node_url_parse"
    and h2: "url_format demo_node = node_url_format"
    and w: "\<not> platform_win32 demo_node"
    by (simp_all add: demo_node_fields)
  have h3: "''sub/index'' \<noteq> []" by simp
  have h4': "list_all is_plain_char ''sub/index''"
    by (simp add: is_plain_char_def is_alnum_def)
  then have h4: "\<forall>c\<in>set ''sub/index''. is_plain_char c"
    by (simp only: list_all_iff)
  have u: "l_url (load demo_node ''sub/index'' JUndefined None demo_tpl)
       = ''view:///sub/index?_view=sub%2Findex''"
    by code_simp
  from resolve_format [OF h1 h2 h3 h4, of JUndefined None demo_tpl] h1 h2 h3 h4' u w
  show ?thesis by simp
qed

theorem resolve_format_counterexample:
  "l_url (load demo_node ''index'' JUndefined None demo_tpl) = ''view:///index?_view=index''
   \<and> parseFilePath demo_node ''view:///index?_view=index'' = Inr ''/index''
   \<and> ''/index'' \<noteq> ''index''
   \<and> l_url (load demo_node ''/index'' JUndefined None demo_tpl) = ''view:///index?_view=%2Findex''
   \<and> parseFilePath (demo_node\<lparr>platform_win32 := True\<rparr>) ''view:///index?_view=%2Findex''
       = Inr ''index''
   \<and> ''index'' \<noteq> ''/index''"
proof -
  have a: "l_url (load demo_node ''index'' JUndefined None demo_tpl)
             = ''view:///index?_view=index''"
    by code_simp
  have b: "parseFilePath demo_node ''view:///index?_view=index'' = Inr ''/index''"
    by code_simp
  have c: "l_url (load demo_node ''/index'' JUndefined None demo_tpl)
             = ''view:///index?_view=%2Findex''"
    by code_simp
  have d: "parseFilePath (demo_node\<lparr>platform_win32 := True\<rparr>) ''view:///index?_view=%2Findex''
             = Inr ''index''"
    by code_simp
  show ?thesis using a b c d by simp
qed

section \<open>Resolving an asset URL\<close>

lemma split_on_not_Nil: "split_on c s \<noteq> []"
  by (induction s) (auto split: list.splits)

lemma split_on_no_separator: "c \<notin> set s \<Longrightarrow> split_on c s = [s]"
  by (induction s) auto

lemma split_on_append:
  "split_on c (a @ c # b) = split_on c a @ split_on c b"
proof (induction a)
  case Nil
  then show ?case by simp
next
  case (Cons x xs)
  obtain s ss where "split_on c xs = s # ss"
    using split_on_not_Nil [of c xs] by (cases "split_on c xs") auto
  with Cons show ?case by simp
qed

lemma split_on_join_with:
  "segs \<noteq> [] \<Longrightarrow> \<forall>s\<in>set segs. c \<notin> set s \<Longrightarrow> split_on c (join_with [c] segs) = segs"
proof (induction "[c]" segs rule: join_with.induct)
  case 1
  then show ?case by simp
next
  case (2 x)
  then show ?case by (simp add: split_on_no_separator)
next
  case (3 x y ys)
  then have "split_on c (x @ c # join_with [c] (y # ys)) = [x] @ (y # ys)"
    by (simp add: split_on_append split_on_no_separator)
  then show ?case by simp
qed

lemma normalize_segments_plain:
  "\<forall>s\<in>set xs. plain_segment s \<Longrightarrow>
   normalize_segments a res (xs @ ys) = normalize_segments a (rev xs @ res) ys"
  by (induction xs arbitrary: res) (simp_all add: plain_segment_def)

lemma join_with_append:
  "xs \<noteq> [] \<Longrightarrow> ys \<noteq> [] \<Longrightarrow> join_with sep (xs @ ys) = join_with sep xs @ sep @ join_with sep ys"
proof (induction sep xs rule: join_with.induct)
  case (1 sep)
  then show ?case by simp
next
  case (2 sep x)
  then show ?case by (cases ys) simp_all
next
  case (3 sep x y zs)
  then show ?case by simp
qed

lemma join_with_plain_hd:
  "segs \<noteq> [] \<Longrightarrow> \<forall>s\<in>set segs. plain_segment s \<Longrightarrow>
   join_with ''/'' segs \<noteq> [] \<and> hd (join_with ''/'' segs) \<noteq> CHR ''/''"
proof (induction "''/''" segs rule: join_with.induct)
  case 1
  then show ?case by simp
next
  case (2 x)
  then show ?case by (cases x) (auto simp: plain_segment_def)
next
  case (3 x y ys)
  then show ?case by (cases x) (auto simp: plain_segment_def)
qed

lemma plain_segment_last: "plain_segment x \<Longrightarrow> last x \<noteq> CHR ''/''"
proof
  assume p: "plain_segment x" and l: "last x = CHR ''/''"
  from p have "x \<noteq> []" by (simp add: plain_segment_def)
  then have "last x \<in> set x" by (rule last_in_set)
  with l have "CHR ''/'' \<in> set x" by simp
  with p show False by (simp add: plain_segment_def)
qed

lemma join_with_plain_last:
  "segs \<noteq> [] \<Longrightarrow> \<forall>s\<in>set segs. plain_segment s \<Longrightarrow>
   last (join_with ''/'' segs) \<noteq> CHR ''/''"
proof (induction segs)
  case Nil
  then show ?case by simp
next
  case (Cons x xs)
  show ?case
  proof (cases xs)
    case Nil
    then show ?thesis using Cons.prems plain_segment_last by simp
  next
    case (Cons y ys)
    then have ne: "join_with ''/'' xs \<noteq> []"
      using join_with_plain_hd [of xs] Cons.prems by simp
    have "join_with ''/'' (x # xs) = x @ ''/'' @ join_with ''/'' xs"
      using Cons by simp
    then have "last (join_with ''/'' (x # xs)) = last (join_with ''/'' xs)"
      using ne by simp
    moreover have "last (join_with ''/'' xs) \<noteq> CHR ''/''"
      using Cons.IH Cons.prems Cons by simp
    ultimately show ?thesis by simp
  qed
qed

text \<open>
  \<open>path.posix.join\<close> of a relative root, an optional directory and a path that starts
  with a separator, all made of plain segments, puts the segments in a row.
\<close>

lemma posix_join_plain:
  assumes "roots \<noteq> []" and "\<forall>s\<in>set roots. plain_segment s"
    and "segs \<noteq> []" and "\<forall>s\<in>set segs. plain_segment s"
    and "h = [] \<or> plain_segment h"
  shows "posix_join [join_with ''/'' roots, h, ''/'' @ join_with ''/'' segs] =
           join_with ''/'' (roots @ (if h = [] then [] else [h]) @ segs)"
proof -
  let ?mid = "if h = [] then [] else [h]"
  let ?all = "roots @ ?mid @ segs"
  have mid: "\<forall>s\<in>set ?mid. plain_segment s" using assms(5) by auto
  have r: "join_with ''/'' roots \<noteq> []" "hd (join_with ''/'' roots) \<noteq> CHR ''/''"
    using join_with_plain_hd [OF assms(1,2)] by simp_all
  have s: "join_with ''/'' segs \<noteq> []" "last (join_with ''/'' segs) \<noteq> CHR ''/''"
    using join_with_plain_hd [OF assms(3,4)] join_with_plain_last [OF assms(3,4)] by simp_all
  define joined where
    "joined = join_with ''/'' roots @ (if h = [] then [] else ''/'' @ h) @ ''//'' @ join_with ''/'' segs"
  have parts: "join_with ''/'' (filter (\<lambda>a. a \<noteq> [])
                  [join_with ''/'' roots, h, ''/'' @ join_with ''/'' segs]) = joined"
    using r by (simp add: joined_def)
  have nosep: "\<forall>s\<in>set roots. CHR ''/'' \<notin> set s" "\<forall>s\<in>set segs. CHR ''/'' \<notin> set s"
    using assms(2,4) by (simp_all add: plain_segment_def)
  have sr: "split_on CHR ''/'' (join_with ''/'' roots) = roots"
    using split_on_join_with [OF assms(1) nosep(1)] by simp
  have ss: "split_on CHR ''/'' (join_with ''/'' segs) = segs"
    using split_on_join_with [OF assms(3) nosep(2)] by simp
  have split: "split_on CHR ''/'' joined = roots @ ?mid @ [] # segs"
  proof (cases "h = []")
    case True
    have "joined = join_with ''/'' roots @ CHR ''/'' # (CHR ''/'' # join_with ''/'' segs)"
      using True by (simp add: joined_def)
    then have "split_on CHR ''/'' joined =
        split_on CHR ''/'' (join_with ''/'' roots)
        @ split_on CHR ''/'' (CHR ''/'' # join_with ''/'' segs)"
      by (simp only: split_on_append)
    then show ?thesis using True sr ss by simp
  next
    case False
    then have ph: "CHR ''/'' \<notin> set h" using assms(5) by (simp add: plain_segment_def)
    have "joined = join_with ''/'' roots @ CHR ''/'' # (h @ CHR ''/'' # (CHR ''/'' # join_with ''/'' segs))"
      using False by (simp add: joined_def)
    then have "split_on CHR ''/'' joined =
        split_on CHR ''/'' (join_with ''/'' roots)
        @ split_on CHR ''/'' h @ split_on CHR ''/'' (CHR ''/'' # join_with ''/'' segs)"
      by (simp only: split_on_append)
    then show ?thesis using False sr ss ph by (simp add: split_on_no_separator)
  qed
  have "normalize_segments True [] (roots @ ?mid @ [] # segs)
          = normalize_segments True (rev roots) (?mid @ [] # segs)"
    using normalize_segments_plain [OF assms(2), of True "[]"] by simp
  also have "\<dots> = normalize_segments True (rev ?mid @ rev roots) ([] # segs)"
    using normalize_segments_plain [OF mid] by blast
  also have "\<dots> = normalize_segments True (rev ?mid @ rev roots) (segs @ [])"
    by simp
  also have "\<dots> = normalize_segments True (rev segs @ rev ?mid @ rev roots) []"
    using normalize_segments_plain [OF assms(4)] by blast
  also have "\<dots> = ?all" by simp
  finally have norm: "normalize_segments True [] (split_on CHR ''/'' joined) = ?all"
    using split by simp
  have jne: "joined \<noteq> []" using r by (simp add: joined_def)
  have jhd: "hd joined \<noteq> CHR ''/''" using r by (simp add: joined_def)
  have jlast: "last joined \<noteq> CHR ''/''" using s by (simp add: joined_def)
  have "roots @ ?mid @ segs \<noteq> []" using assms(1) by simp
  moreover have "\<forall>x\<in>set (roots @ ?mid @ segs). plain_segment x"
    using assms(2,4) mid by auto
  ultimately have qne: "join_with ''/'' ?all \<noteq> []"
    using join_with_plain_hd by blast
  have "posix_normalize joined = join_with ''/'' ?all"
    using jne jhd jlast qne norm by (simp add: posix_normalize_def Let_def)
  then show ?thesis
    using parts r by (simp add: posix_join_def Let_def)
qed

text \<open>An empty segment changes nothing, so a doubled separator is a single one.\<close>

lemma normalize_segments_drop_empty:
  "normalize_segments a res (xs @ [] # ys) = normalize_segments a res (xs @ ys)"
  by (induction xs arbitrary: res a) (simp_all split: list.splits)

lemma posix_normalize_double_slash:
  assumes "A \<noteq> []"
  shows "posix_normalize (A @ ''//'' @ rel) = posix_normalize (A @ ''/'' @ rel)"
proof -
  have s2: "split_on CHR ''/'' (A @ ''//'' @ rel) =
              split_on CHR ''/'' A @ [] # split_on CHR ''/'' rel"
  proof -
    have "A @ ''//'' @ rel = A @ CHR ''/'' # (CHR ''/'' # rel)" by simp
    then have "split_on CHR ''/'' (A @ ''//'' @ rel) =
                 split_on CHR ''/'' A @ split_on CHR ''/'' (CHR ''/'' # rel)"
      by (simp only: split_on_append)
    then show ?thesis by simp
  qed
  have s1: "split_on CHR ''/'' (A @ ''/'' @ rel) =
              split_on CHR ''/'' A @ split_on CHR ''/'' rel"
  proof -
    have "A @ ''/'' @ rel = A @ CHR ''/'' # rel" by simp
    then show ?thesis by (simp only: split_on_append)
  qed
  have n: "normalize_segments b [] (split_on CHR ''/'' (A @ ''//'' @ rel)) =
           normalize_segments b [] (split_on CHR ''/'' (A @ ''/'' @ rel))" for b
    by (simp only: s1 s2 normalize_segments_drop_empty)
  have h: "hd (A @ ''//'' @ rel) = hd (A @ ''/'' @ rel)"
    using assms by simp
  have l: "last (A @ ''//'' @ rel) = last (A @ ''/'' @ rel)"
    by simp
  have ne: "A @ ''//'' @ rel \<noteq> []" "A @ ''/'' @ rel \<noteq> []"
    by simp_all
  show ?thesis
    unfolding posix_normalize_def Let_def using ne by (simp only: n h l if_False)
qed

text \<open>
  \<open>path.posix.join\<close> of a non-empty root, a directory that may be empty and a path that
  starts with a separator is the normal form of the three put in a row.
\<close>

lemma posix_join_compose:
  assumes "root \<noteq> []"
  shows "posix_join [root, h, ''/'' @ rel] =
           posix_normalize (root @ ''/'' @ (if h = [] then [] else h @ ''/'') @ rel)"
proof (cases "h = []")
  case True
  then have "posix_join [root, h, ''/'' @ rel] = posix_normalize (root @ ''//'' @ rel)"
    using assms by (simp add: posix_join_def)
  also have "\<dots> = posix_normalize (root @ ''/'' @ rel)"
    using assms by (rule posix_normalize_double_slash)
  finally show ?thesis using True by simp
next
  case False
  then have "posix_join [root, h, ''/'' @ rel] =
               posix_normalize ((root @ ''/'' @ h) @ ''//'' @ rel)"
    using assms by (simp add: posix_join_def)
  also have "\<dots> = posix_normalize ((root @ ''/'' @ h) @ ''/'' @ rel)"
    by (rule posix_normalize_double_slash) simp
  finally show ?thesis using False by simp
qed

subsection \<open>What parseFilePath decodes\<close>

lemma replace_spaces_keep:
  "\<not> is_js_space a \<Longrightarrow> a \<noteq> CHR ''%'' \<Longrightarrow> replace_spaces (a # xs) = a # replace_spaces xs"
proof (cases xs)
  case Nil
  then show "\<not> is_js_space a \<Longrightarrow> ?thesis" by simp
next
  case (Cons b ys)
  then show "\<not> is_js_space a \<Longrightarrow> a \<noteq> CHR ''%'' \<Longrightarrow> ?thesis"
    by (cases ys) simp_all
qed

lemma replace_spaces_white:
  "is_js_space a \<Longrightarrow> replace_spaces (a # xs) = CHR '' '' # replace_spaces xs"
proof (cases xs)
  case Nil
  then show "is_js_space a \<Longrightarrow> ?thesis" by simp
next
  case (Cons b ys)
  then show "is_js_space a \<Longrightarrow> ?thesis"
    by (cases ys) simp_all
qed

lemma replace_spaces_encoded:
  "replace_spaces (''%20'' @ xs) = CHR '' '' # replace_spaces xs"
  by (simp add: is_js_space_def)

lemma replace_spaces_piece:
  "plain_piece p \<Longrightarrow> replace_spaces (p @ rest) = p @ replace_spaces rest"
  by (induction p) (simp_all add: plain_piece_def replace_spaces_keep)

lemma replace_spaces_pieces:
  "\<forall>x\<in>set ps. plain_piece x \<Longrightarrow>
   replace_spaces (join_with ''%20'' ps @ rest) = join_with '' '' ps @ replace_spaces rest"
proof (induction ps)
  case Nil
  then show ?case by simp
next
  case (Cons x xs)
  show ?case
  proof (cases xs)
    case Nil
    then show ?thesis using Cons.prems by (simp add: replace_spaces_piece)
  next
    case (Cons y ys)
    have "join_with ''%20'' (x # xs) @ rest = x @ (''%20'' @ (join_with ''%20'' xs @ rest))"
      using Cons by simp
    then have "replace_spaces (join_with ''%20'' (x # xs) @ rest) =
                 x @ CHR '' '' # replace_spaces (join_with ''%20'' xs @ rest)"
      using Cons.prems by (simp only: replace_spaces_piece replace_spaces_encoded list.set_intros)
    also have "replace_spaces (join_with ''%20'' xs @ rest) =
                 join_with '' '' xs @ replace_spaces rest"
      using Cons.IH Cons.prems by simp
    finally show ?thesis using Cons by simp
  qed
qed

lemma replace_spaces_segments:
  "\<forall>ps\<in>set pss. \<forall>x\<in>set ps. plain_piece x \<Longrightarrow>
   replace_spaces (join_with ''/'' (map (join_with ''%20'') pss) @ rest) =
     join_with ''/'' (map (join_with '' '') pss) @ replace_spaces rest"
proof (induction pss)
  case Nil
  then show ?case by simp
next
  case (Cons ps qss)
  have sep: "replace_spaces (CHR ''/'' # zs) = CHR ''/'' # replace_spaces zs" for zs
    by (rule replace_spaces_keep) (simp_all add: is_js_space_def)
  have one: "replace_spaces (join_with ''%20'' ps @ zs) =
               join_with '' '' ps @ replace_spaces zs" for zs
    using Cons.prems by (intro replace_spaces_pieces) simp
  show ?case
  proof (cases qss)
    case Nil
    then show ?thesis using one by simp
  next
    case (Cons qs rss)
    have "join_with ''/'' (map (join_with ''%20'') (ps # qss)) @ rest =
            join_with ''%20'' ps
            @ (CHR ''/'' # (join_with ''/'' (map (join_with ''%20'') qss) @ rest))"
      using Cons by simp
    then have "replace_spaces (join_with ''/'' (map (join_with ''%20'') (ps # qss)) @ rest) =
                 join_with '' '' ps
                 @ CHR ''/'' # replace_spaces (join_with ''/'' (map (join_with ''%20'') qss) @ rest)"
      by (simp only: one sep)
    also have "replace_spaces (join_with ''/'' (map (join_with ''%20'') qss) @ rest) =
                 join_with ''/'' (map (join_with '' '') qss) @ replace_spaces rest"
      using Cons.IH Cons.prems by simp
    finally show ?thesis using Cons by simp
  qed
qed

text \<open>
  C9. For an asset URL with a host part \<open>h\<close> (possibly empty) and a path \<open>p\<close>, the
  handler answers with \<open>path.join(assetsPath, h, fileName)\<close>, where \<open>fileName\<close> is
  \<open>p\<close>, without its first character on \<open>win32\<close>, with every white-space character
  and every \<open>%20\<close> turned into a space. On POSIX, where \<open>p\<close> is a separator followed by
  the relative path, that is the normal form of \<open>assetsPath/relativePath\<close> for the empty
  host and of \<open>assetsPath/h/relativePath\<close> otherwise, the relative path decoded. When
  the root, the host and the decoded segments of the path are plain, the normal form is
  the composition itself: a path whose segments are pieces joined by \<open>%20\<close> resolves to
  the root, the host if any, and the segments with their pieces joined by spaces.
\<close>

theorem asset_path_composition:
  assumes "url_parse N u = Inr pu"
    and "hostname pu = Some h"
    and "pathname pu = Some p"
  shows "setupAssetsProtocol_handler N st u =
           Inr (path_join N [assetsPath st, h,
                  replace_spaces (if platform_win32 N then substr_from p 1 else p)])
         \<and> (path_join N = posix_join \<longrightarrow> \<not> platform_win32 N \<longrightarrow>
              assetsPath st \<noteq> [] \<longrightarrow> p = ''/'' @ rel \<longrightarrow>
              setupAssetsProtocol_handler N st u =
                Inr (posix_normalize
                       (assetsPath st @ ''/'' @ (if h = [] then [] else h @ ''/'')
                          @ replace_spaces rel)))
         \<and> (path_join N = posix_join \<longrightarrow> \<not> platform_win32 N \<longrightarrow>
              (h = [] \<or> plain_segment h) \<longrightarrow>
              assetsPath st = join_with ''/'' roots \<longrightarrow> roots \<noteq> [] \<longrightarrow>
              (\<forall>s\<in>set roots. plain_segment s) \<longrightarrow>
              p = ''/'' @ join_with ''/'' (map (join_with ''%20'') pss) \<longrightarrow> pss \<noteq> [] \<longrightarrow>
              (\<forall>ps\<in>set pss. (\<forall>x\<in>set ps. plain_piece x) \<and> plain_segment (join_with '' '' ps)) \<longrightarrow>
              setupAssetsProtocol_handler N st u =
                Inr (assetsPath st @ (if h = [] then [] else ''/'' @ h) @ ''/''
                       @ join_with ''/'' (map (join_with '' '') pss)))"
proof -
  let ?f = "replace_spaces (if platform_win32 N then substr_from p 1 else p)"
  have gen: "setupAssetsProtocol_handler N st u = Inr (path_join N [assetsPath st, h, ?f])"
    using assms
    by (simp add: setupAssetsProtocol_handler_def parseFilePath_def path_join_args_def)
  have lead: "replace_spaces (''/'' @ zs) = ''/'' @ replace_spaces zs" for zs
    using replace_spaces_keep [of "CHR ''/''" zs] by (simp add: is_js_space_def)
  have norm: "setupAssetsProtocol_handler N st u =
                Inr (posix_normalize
                       (assetsPath st @ ''/'' @ (if h = [] then [] else h @ ''/'')
                          @ replace_spaces rel))"
    if pj: "path_join N = posix_join" and w: "\<not> platform_win32 N"
      and root: "assetsPath st \<noteq> []" and pp: "p = ''/'' @ rel"
  proof -
    have "?f = ''/'' @ replace_spaces rel" using w pp lead by simp
    then have "path_join N [assetsPath st, h, ?f] =
                 posix_join [assetsPath st, h, ''/'' @ replace_spaces rel]"
      using pj by simp
    also have "\<dots> = posix_normalize
                       (assetsPath st @ ''/'' @ (if h = [] then [] else h @ ''/'')
                          @ replace_spaces rel)"
      using root by (rule posix_join_compose)
    finally show ?thesis using gen by simp
  qed
  have plain: "setupAssetsProtocol_handler N st u =
                Inr (assetsPath st @ (if h = [] then [] else ''/'' @ h) @ ''/''
                       @ join_with ''/'' (map (join_with '' '') pss))"
    if pj: "path_join N = posix_join" and w: "\<not> platform_win32 N"
      and hp: "h = [] \<or> plain_segment h"
      and root: "assetsPath st = join_with ''/'' roots" "roots \<noteq> []"
        "\<forall>s\<in>set roots. plain_segment s"
      and pp: "p = ''/'' @ join_with ''/'' (map (join_with ''%20'') pss)" "pss \<noteq> []"
      and pc: "\<forall>ps\<in>set pss. (\<forall>x\<in>set ps. plain_piece x) \<and> plain_segment (join_with '' '' ps)"
  proof -
    let ?segs = "map (join_with '' '') pss"
    have "replace_spaces (join_with ''/'' (map (join_with ''%20'') pss) @ []) =
            join_with ''/'' ?segs @ replace_spaces []"
      using pc by (intro replace_spaces_segments) blast
    then have dec: "?f = ''/'' @ join_with ''/'' ?segs"
      using w pp(1) lead by simp
    have segs: "?segs \<noteq> []" "\<forall>s\<in>set ?segs. plain_segment s"
      using pp(2) pc by auto
    have "path_join N [assetsPath st, h, ?f] =
            join_with ''/'' (roots @ (if h = [] then [] else [h]) @ ?segs)"
      using posix_join_plain [OF root(2,3) segs hp] pj root(1) dec by simp
    also have "\<dots> = join_with ''/'' roots @ ''/''
                     @ join_with ''/'' ((if h = [] then [] else [h]) @ ?segs)"
      using root(2) segs(1) by (simp add: join_with_append)
    also have "join_with ''/'' ((if h = [] then [] else [h]) @ ?segs) =
                 (if h = [] then [] else h @ ''/'') @ join_with ''/'' ?segs"
      using segs(1) join_with_append [of "[h]" ?segs "''/''"] by simp
    finally show ?thesis using gen root(1) by simp
  qed
  show ?thesis using gen norm plain by blast
qed

theorem asset_path_composition_witness:
  "url_parse demo_node ''asset://css/my%20theme/main%20file.css'' =
     Inr \<lparr>pathname = Some ''/my%20theme/main%20file.css'', hostname = Some ''css'',
          query = []\<rparr>
   \<and> path_join demo_node = posix_join
   \<and> \<not> platform_win32 demo_node
   \<and> plain_segment ''css''
   \<and> assetsPath (demo_instance []) = join_with ''/'' [''assets'']
   \<and> ''/my%20theme/main%20file.css'' =
       ''/'' @ join_with ''/'' (map (join_with ''%20'') [[''my'', ''theme''], [''main'', ''file.css'']])
   \<and> list_all plain_segment [''assets'', ''my theme'', ''main file.css'']
   \<and> list_all plain_piece [''my'', ''theme'', ''main'', ''file.css'']
   \<and> setupAssetsProtocol_handler demo_node (demo_instance [])
         ''asset://css/my%20theme/main%20file.css''
       = Inr ''assets/css/my theme/main file.css''
   \<and> url_parse demo_node ''asset:///main%20file.css'' =
       Inr \<lparr>pathname = Some ''/main%20file.css'', hostname = Some [], query = []\<rparr>
   \<and> setupAssetsProtocol_handler demo_node (demo_instance []) ''asset:///main%20file.css''
       = Inr ''assets/main file.css''"
proof -
  let ?pu = "\<lparr>pathname = Some ''/my%20theme/main%20file.css'', hostname = Some ''css'',
              query = []\<rparr>"
  let ?pv = "\<lparr>pathname = Some ''/main%20file.css'', hostname = Some [], query = []\<rparr>"
  have h1: "url_parse demo_node ''asset://css/my%20theme/main%20file.css'' = Inr ?pu"
    by code_simp
  have h2: "hostname ?pu = Some ''css''" and h3: "pathname ?pu = Some ''/my%20theme/main%20file.css''"
    by simp_all
  have k1: "url_parse demo_node ''asset:///main%20file.css'' = Inr ?pv"
    by code_simp
  have k2: "hostname ?pv = Some []" and k3: "pathname ?pv = Some ''/main%20file.css''"
    by simp_all
  have h4: "path_join demo_node = posix_join" and h5: "\<not> platform_win32 demo_node"
    by (simp_all add: demo_node_fields)
  have h6: "plain_segment ''css''" by (simp add: plain_segment_def)
  have h7: "assetsPath (demo_instance []) = join_with ''/'' [''assets'']"
    by (simp add: demo_instance_fields)
  have h8: "''/my%20theme/main%20file.css'' =
       ''/'' @ join_with ''/'' (map (join_with ''%20'') [[''my'', ''theme''], [''main'', ''file.css'']])"
    by simp
  have k8: "''/main%20file.css'' =
       ''/'' @ join_with ''/'' (map (join_with ''%20'') [[''main'', ''file.css'']])"
    by simp
  have h9: "list_all plain_segment [''assets'', ''my theme'', ''main file.css'']"
    by (simp add: plain_segment_def)
  have h10: "list_all plain_piece [''my'', ''theme'', ''main'', ''file.css'']"
    by (simp add: plain_piece_def is_js_space_def)
  have p2: "[''assets''] \<noteq> []" by simp
  have p3: "\<forall>s\<in>set [''assets'']. plain_segment s" using h9 by simp
  have q1: "''css'' = [] \<or> plain_segment ''css''" using h6 by simp
  have q2: "[[''my'', ''theme''], [''main'', ''file.css'']] \<noteq> []" by simp
  have q3: "\<forall>ps\<in>set [[''my'', ''theme''], [''main'', ''file.css'']].
              (\<forall>x\<in>set ps. plain_piece x) \<and> plain_segment (join_with '' '' ps)"
    using h9 h10 by simp
  have e1: "[] = [] \<or> plain_segment []" by simp
  have e2: "[[''main'', ''file.css'']] \<noteq> []" by simp
  have e3: "\<forall>ps\<in>set [[''main'', ''file.css'']].
              (\<forall>x\<in>set ps. plain_piece x) \<and> plain_segment (join_with '' '' ps)"
    using h9 h10 by simp
  have "setupAssetsProtocol_handler demo_node (demo_instance [])
          ''asset://css/my%20theme/main%20file.css''
        = Inr (assetsPath (demo_instance []) @ (if ''css'' = [] then [] else ''/'' @ ''css'')
                 @ ''/'' @ join_with ''/''
                     (map (join_with '' '') [[''my'', ''theme''], [''main'', ''file.css'']]))"
    using asset_path_composition [OF h1 h2 h3, THEN conjunct2, THEN conjunct2,
            of "demo_instance []" "[''assets'']"
               "[[''my'', ''theme''], [''main'', ''file.css'']]"]
          h4 h5 q1 h7 p2 p3 h8 q2 q3
    by blast
  then have r1: "setupAssetsProtocol_handler demo_node (demo_instance [])
                   ''asset://css/my%20theme/main%20file.css''
                 = Inr ''assets/css/my theme/main file.css''"
    by (simp add: demo_instance_fields)
  have "setupAssetsProtocol_handler demo_node (demo_instance []) ''asset:///main%20file.css''
        = Inr (assetsPath (demo_instance []) @ (if ([]::string) = [] then [] else ''/'' @ [])
                 @ ''/'' @ join_with ''/'' (map (join_with '' '') [[''main'', ''file.css'']]))"
    using asset_path_composition [OF k1 k2 k3, THEN conjunct2, THEN conjunct2,
            of "demo_instance []" "[''assets'']" "[[''main'', ''file.css'']]"]
          h4 h5 e1 h7 p2 p3 k8 e2 e3
    by blast
  then have r2: "setupAssetsProtocol_handler demo_node (demo_instance [])
                   ''asset:///main%20file.css'' = Inr ''assets/main file.css''"
    by (simp add: demo_instance_fields)
  show ?thesis by (intro conjI h1 h4 h5 h6 h7 h8 h9 h10 r1 k1 r2)
qed

end
